theory Spec2Isabelle
  imports Complex_Main
begin

section \<open>Data model\<close>

text \<open>
  The development embeds \<^verbatim>\<open>src/bbo/algorithms/bo.py\<close>, the class \<^verbatim>\<open>BODesigner\<close>.

  Numbers: a Python \<^verbatim>\<open>int\<close> is an \<open>int\<close>; a float64 is idealised as a \<open>real\<close>
  (rounding is outside the model). A two-dimensional numpy array or torch tensor is the
  list of its rows; \<^verbatim>\<open>len\<close> is \<open>length\<close>, iterating yields the rows, \<^verbatim>\<open>A[idx]\<close> with
  an index array selects rows. All arrays of one call have the columns of the one search
  space, so the shape errors numpy raises for arrays of different widths are outside
  the model, and \<^verbatim>\<open>np.zeros((0, d))\<close> is the empty list.
\<close>

type_synonym point = "real list"
type_synonym ndarray = "point list"

datatype error =
    NotImplementedError string
  | ValueError
  | TypeError
  | KeyError
  | RuntimeError

text \<open>
  \<^verbatim>\<open>torch.tensor\<close> of a list of Python floats has the default dtype float32 (line 85):
  every number is rounded to the nearest float32, ties to the even significand. A float32
  has 24 significant bits and binary exponents from \<open>-126\<close> to \<open>127\<close>; below
  \<open>2 powi -126\<close> the values are spaced \<open>2 powi -149\<close> apart; a number that rounds to
  \<open>2 powi 128\<close> or beyond becomes an infinity. \<open>float32_exponent a\<close> is the largest
  exponent \<open>e\<close> of that range with \<open>2 powi e \<le> a\<close>, or \<open>-126\<close> when there is none, found
  by going down from \<open>127\<close>. \<^verbatim>\<open>.double()\<close> (line 130) widens a float32 without changing
  its value; \<open>finite_value\<close> reads a finite one.
\<close>

datatype f32 = Finite real | PosInf | NegInf

fun float32_exponent_from :: "nat \<Rightarrow> int \<Rightarrow> real \<Rightarrow> int" where
  "float32_exponent_from 0 e a = e"
| "float32_exponent_from (Suc n) e a =
     (if 2 powi e \<le> a then e else float32_exponent_from n (e - 1) a)"

definition float32_exponent :: "real \<Rightarrow> int" where
  "float32_exponent a = float32_exponent_from 253 127 a"

definition round_half_even :: "real \<Rightarrow> int" where
  "round_half_even y =
     (let f = \<lfloor>y\<rfloor>
      in if y - of_int f < 1 / 2 then f
         else if 1 / 2 < y - of_int f then f + 1
         else if even f then f else f + 1)"

definition to_float32 :: "real \<Rightarrow> f32" where
  "to_float32 x =
     (let ulp = 2 powi (float32_exponent \<bar>x\<bar> - 23);
          r = ulp * of_int (round_half_even (x / ulp))
      in if 2 powi 128 \<le> r then PosInf
         else if r \<le> - (2 powi 128) then NegInf
         else Finite r)"

fun finite_value :: "f32 \<Rightarrow> real" where
  "finite_value (Finite r) = r"
| "finite_value PosInf = 0"
| "finite_value NegInf = 0"

text \<open>
  Modelled from the spec: the members of \<^verbatim>\<open>SpecType\<close> (module
  \<^verbatim>\<open>bbo.utils.converters.converter\<close>, not in the sources) other than \<^verbatim>\<open>DOUBLE\<close>.
  The source names \<^verbatim>\<open>SpecType.DOUBLE\<close> only; the spec speaks of continuous and
  non-continuous parameters and of features grouped by declared type.
\<close>

datatype SpecType = DOUBLE | INTEGER | CATEGORICAL | DISCRETE

text \<open>A value of \<^verbatim>\<open>converter.output_spec\<close>: the fields the source reads.\<close>

record array_spec =
  spec_type :: SpecType
  bounds :: "real \<times> real"

text \<open>
  Modelled from the spec: \<^verbatim>\<open>ProblemStatement\<close> (module
  \<^verbatim>\<open>bbo.utils.problem_statement\<close>, not in the sources) "declares a search space (named
  parameters with types and bounds) and an objective (named metrics)".
\<close>

record parameter_config =
  param_name :: string
  param_type :: SpecType

record problem_statement =
  search_space :: "parameter_config list"
  metric_names :: "string list"

text \<open>\<^verbatim>\<open>Union[str, List[str]]\<close>, the type of the field \<^verbatim>\<open>_acqf_type\<close>.\<close>

datatype acqf_type_value = Name string | Names "string list"

text \<open>
  What \<^verbatim>\<open>create_acqf\<close> returns: one acquisition function, or a Python list of them.
\<close>

datatype 'a acqf_value = AcqfSingle 'a | AcqfList "'a list"

text \<open>
  The keyword options of the attrs class (lines 34 to 70). \<^verbatim>\<open>_mean_config\<close> and
  \<^verbatim>\<open>_kernel_config\<close> are only handed to the mean and kernel factories and are left out.
\<close>

record config =
  n_init :: int
  q :: int
  device :: string
  mean_type :: "string option"
  kernel_type :: "string option"
  mll_optimizer :: string
  mll_lr :: "real option"
  mll_epochs :: "int option"
  acqf_type :: acqf_type_value
  acqf_optimizer :: string
  acqf_config :: "(string \<times> int) list"

text \<open>The field defaults of lines 34 to 70.\<close>

definition default_config :: config where
  "default_config = \<lparr>
     n_init = 10, q = 1, device = ''cpu'',
     mean_type = None, kernel_type = None,
     mll_optimizer = ''l-bfgs'', mll_lr = None, mll_epochs = None,
     acqf_type = Name ''qEI'', acqf_optimizer = ''l-bfgs'',
     acqf_config = [] \<rparr>"

text \<open>
  The designer object: its options and the attributes set after construction. \<open>lb\<close> and
  \<open>ub\<close> are the float32 tensors \<^verbatim>\<open>self._lb\<close> and \<^verbatim>\<open>self._ub\<close>; \<open>self_device\<close> is
  \<^verbatim>\<open>self._device\<close> after line 86.
\<close>

record 't BODesigner =
  problem :: problem_statement
  cfg :: config
  trials :: "'t list"
  lb :: "f32 list"
  ub :: "f32 list"
  self_device :: string

text \<open>
  The collaborators of the designer, which are not in the sources: the random
  sub-designer, the trial converter, the Gaussian-process library, the acquisition
  factory, botorch's optimizer, numpy's generator, the NSGA-II sub-designer and torch's
  parser of device strings (\<^verbatim>\<open>torch.device\<close>, which raises for a string that names no
  device). Each is a field holding what the call returns. \<open>'t\<close> is the type of trials,
  \<open>'m\<close> of surrogate models, \<open>'a\<close> of acquisition functions, \<open>'s\<close> of states of the
  NSGA-II designer. A trial of the NSGA-II designer is represented by its feature row.
\<close>

record ('t, 'm, 'a, 's) env =
  init_suggest :: "int option \<Rightarrow> 't list"
  output_spec :: "(string \<times> array_spec) list"
  convert :: "'t list \<Rightarrow> (SpecType \<times> ndarray) list \<times> (string \<times> real list) list"
  to_features :: "'t list \<Rightarrow> (string \<times> ndarray) list"
  input_converter_dict :: "string list"
  to_trials :: "(SpecType \<times> ndarray) list \<Rightarrow> 't list"
  cuda_is_available :: bool
  torch_device :: "string \<Rightarrow> error + string"
  SingleTaskGP :: "ndarray \<Rightarrow> ndarray \<Rightarrow> string option \<Rightarrow> string option \<Rightarrow> 'm"
  fit_gpytorch_mll :: "'m \<Rightarrow> 'm"
  adam_step :: "real \<Rightarrow> ndarray \<Rightarrow> ndarray \<Rightarrow> 'm \<Rightarrow> 'm"
  acqf_factory :: "string \<Rightarrow> 'm \<Rightarrow> ndarray \<Rightarrow> ndarray \<Rightarrow> 'a"
  acqf_call :: "'a \<Rightarrow> point \<Rightarrow> real"
  botorch_optimize_acqf :: "'a acqf_value \<Rightarrow> f32 list \<times> f32 list \<Rightarrow> int \<Rightarrow> error + ndarray"
  permutation :: "nat \<Rightarrow> nat list"
  NSGAIIDesigner :: "problem_statement \<Rightarrow> int \<Rightarrow> int option \<Rightarrow> 's"
  nsgaii_suggest :: "'s \<Rightarrow> ndarray \<times> 's"
  nsgaii_update :: "'s \<Rightarrow> ndarray \<Rightarrow> ndarray \<Rightarrow> 's"
  nsgaii_result :: "'s \<Rightarrow> ndarray"
  nsgaii_curr_pop :: "'s \<Rightarrow> ndarray"

section \<open>numpy operations used by the source\<close>

text \<open>
  \<^verbatim>\<open>x in A\<close> for a row \<open>x\<close> and a two-dimensional array \<open>A\<close> is numpy's
  \<^verbatim>\<open>ndarray.__contains__\<close>, that is \<^verbatim>\<open>(A == x).any()\<close>: the row is broadcast against every
  row of \<open>A\<close>, compared element by element, and one equal element suffices.
\<close>

definition np_contains :: "ndarray \<Rightarrow> point \<Rightarrow> bool" where
  "np_contains A x = list_ex (\<lambda>r. list_ex (\<lambda>(a, b). a = b) (zip r x)) A"

text \<open>
  \<^verbatim>\<open>np.random.choice(n, k, replace=False)\<close>: numpy refuses an empty population unless
  no sample is taken, a sample larger than the population and a negative size; otherwise
  it returns the first \<open>k\<close> entries of a random permutation of \<^verbatim>\<open>range(n)\<close>. The
  permutation drawn is the argument \<open>perm\<close>.
\<close>

definition np_random_choice :: "(nat \<Rightarrow> nat list) \<Rightarrow> int \<Rightarrow> int \<Rightarrow> error + nat list" where
  "np_random_choice perm n k =
     (if n \<le> 0 \<and> k \<noteq> 0 then Inl ValueError
      else if k > n then Inl ValueError
      else if k < 0 then Inl ValueError
      else Inr (take (nat k) (perm (nat n))))"

text \<open>\<^verbatim>\<open>A[idx]\<close> for an index array produced by \<^verbatim>\<open>np.random.choice\<close>.\<close>

definition take_rows :: "ndarray \<Rightarrow> nat list \<Rightarrow> ndarray" where
  "take_rows A idx = map (\<lambda>i. A ! i) idx"

text \<open>
  \<^verbatim>\<open>np.vstack\<close> of a list of arrays: an empty list is refused, otherwise the rows follow
  one another. \<^verbatim>\<open>np.hstack\<close> of a list of two-dimensional arrays: an empty list and
  arrays with different numbers of rows are refused, otherwise the rows are joined.
\<close>

definition np_vstack :: "ndarray list \<Rightarrow> error + ndarray" where
  "np_vstack ms = (if ms = [] then Inl ValueError else Inr (concat ms))"

definition np_hstack :: "ndarray list \<Rightarrow> error + ndarray" where
  "np_hstack ms =
     (case ms of
        [] \<Rightarrow> Inl ValueError
      | m # rest \<Rightarrow>
          if list_all (\<lambda>m'. length m' = length m) rest
          then Inr (foldl (map2 (@)) m rest)
          else Inl ValueError)"

section \<open>Batch assembly of the evolutionary optimizer\<close>

text \<open>
  Lines 166 and 167: \<^verbatim>\<open>diff_X = [x for x in pop_X if x not in pareto_X]\<close>, then an empty
  array of the same width when nothing is left and \<^verbatim>\<open>np.vstack\<close> of the rows otherwise.
\<close>

definition diff_X :: "ndarray \<Rightarrow> ndarray \<Rightarrow> ndarray" where
  "diff_X pop_X pareto_X = filter (\<lambda>x. \<not> np_contains pareto_X x) pop_X"

text \<open>
  Lines 180 to 185: \<open>quota\<close> trials of the random sub-designer, converted to features,
  the feature arrays looked up by the names of \<^verbatim>\<open>input_converter_dict\<close> (a missing key
  raises) and stacked side by side.
\<close>

fun lookup_all :: "(string \<times> ndarray) list \<Rightarrow> string list \<Rightarrow> error + ndarray list" where
  "lookup_all features [] = Inr []"
| "lookup_all features (name # names) =
     (case map_of features name of
        None \<Rightarrow> Inl KeyError
      | Some v \<Rightarrow>
          (case lookup_all features names of
             Inl e \<Rightarrow> Inl e
           | Inr vs \<Rightarrow> Inr (v # vs)))"

definition random_fill :: "('t, 'm, 'a, 's) env \<Rightarrow> int \<Rightarrow> error + ndarray" where
  "random_fill e quota =
     (let ts = init_suggest e (Some quota);
          features = to_features e ts
      in case lookup_all features (input_converter_dict e) of
           Inl err \<Rightarrow> Inl err
         | Inr random_X \<Rightarrow> np_hstack random_X)"

text \<open>
  Lines 169 to 186, with \<open>qq\<close> the batch size \<^verbatim>\<open>self._q\<close>. The quota of line 178 is
  computed from the rows stacked so far.
\<close>

definition batch_assembly ::
  "('t, 'm, 'a, 's) env \<Rightarrow> int \<Rightarrow> ndarray \<Rightarrow> ndarray \<Rightarrow> error + ndarray" where
  "batch_assembly e qq pareto_X dX =
     (if int (length pareto_X) \<ge> qq then
        (case np_random_choice (permutation e) (int (length pareto_X)) qq of
           Inl err \<Rightarrow> Inl err
         | Inr idx \<Rightarrow> Inr (take_rows pareto_X idx))
      else
        (case (if length dX > 0
               then (case np_random_choice (permutation e) (int (length dX))
                            (min (int (length dX)) (qq - int (length pareto_X))) of
                       Inl err \<Rightarrow> Inl err
                     | Inr idx \<Rightarrow> Inr [pareto_X, take_rows dX idx])
               else Inr [pareto_X]) of
           Inl err \<Rightarrow> Inl err
         | Inr next_X \<Rightarrow>
             (case np_vstack next_X of
                Inl err \<Rightarrow> Inl err
              | Inr stacked \<Rightarrow>
                  (let quota = qq - int (length stacked)
                   in if quota > 0 then
                        (case random_fill e quota of
                           Inl err \<Rightarrow> Inl err
                         | Inr random_X \<Rightarrow> np_vstack (next_X @ [random_X]))
                      else np_vstack next_X))))"

section \<open>Construction\<close>

text \<open>
  The attrs validators of lines 39 to 69, run by the generated \<^verbatim>\<open>__init__\<close> before
  \<^verbatim>\<open>__attrs_post_init__\<close>; a value that fails one raises \<^verbatim>\<open>ValueError\<close>.
  \<^verbatim>\<open>validators.in_\<close> tests membership, \<^verbatim>\<open>validators.optional\<close> lets \<^verbatim>\<open>None\<close> pass,
  \<^verbatim>\<open>validators.or_\<close> passes when one of its validators does and
  \<^verbatim>\<open>validators.deep_iterable\<close> tests every member of the value: for a string its
  one-character substrings, for a list its elements (a list is never a member of the list
  of names, so for a list only the second validator can pass).
\<close>

definition acqf_names :: "string list" where
  "acqf_names = [''qEI'', ''qUCB'', ''qPI'', ''qlogEI'']"

definition validators_pass :: "config \<Rightarrow> bool" where
  "validators_pass c \<longleftrightarrow>
     (case mean_type c of None \<Rightarrow> True | Some s \<Rightarrow> s \<in> set [''constant'', ''mlp'']) \<and>
     (case kernel_type c of None \<Rightarrow> True | Some s \<Rightarrow> s \<in> set [''matern52'', ''mlp'', ''kumar'']) \<and>
     mll_optimizer c \<in> set [''l-bfgs'', ''adam''] \<and>
     (case acqf_type c of
        Name s \<Rightarrow> s \<in> set acqf_names \<or> list_all (\<lambda>ch. [ch] \<in> set acqf_names) s
      | Names ns \<Rightarrow> list_all (\<lambda>n. n \<in> set acqf_names) ns) \<and>
     acqf_optimizer c \<in> set [''l-bfgs'', ''nsgaii'']"

text \<open>
  Lines 78 to 85: the loop over \<^verbatim>\<open>self._converter.output_spec.values()\<close>, with the two
  lists it appends to.
\<close>

fun collect_bounds ::
  "array_spec list \<Rightarrow> real list \<Rightarrow> real list \<Rightarrow> error + real list \<times> real list" where
  "collect_bounds [] l u = Inr (l, u)"
| "collect_bounds (spec # specs) l u =
     (if spec_type spec = DOUBLE
      then collect_bounds specs (l @ [fst (bounds spec)]) (u @ [snd (bounds spec)])
      else Inl (NotImplementedError ''Unsupported variable type for BO''))"

text \<open>
  Lines 75 to 86. The random sub-designer and the converter made on lines 76 and 77 are
  the collaborators of \<open>e\<close>. Line 85 turns the two lists into float32 tensors. Line 86
  replaces \<^verbatim>\<open>self._device\<close> by \<^verbatim>\<open>torch.device\<close> of the configured string when CUDA is
  available, which raises when the string names no device, and by the CPU device
  otherwise; the model keeps the configured string in \<open>cfg\<close> and stores the device in
  \<open>self_device\<close>.
\<close>

definition attrs_post_init ::
  "('t, 'm, 'a, 's) env \<Rightarrow> problem_statement \<Rightarrow> config \<Rightarrow> error + 't BODesigner" where
  "attrs_post_init e p c =
     (case collect_bounds (map snd (output_spec e)) [] [] of
        Inl err \<Rightarrow> Inl err
      | Inr (l, u) \<Rightarrow>
          (case (if cuda_is_available e then torch_device e (device c) else Inr ''cpu'') of
             Inl err \<Rightarrow> Inl err
           | Inr dev \<Rightarrow>
               Inr \<lparr> problem = p, cfg = c, trials = [],
                     lb = map to_float32 l, ub = map to_float32 u, self_device = dev \<rparr>))"

definition BODesigner_new ::
  "('t, 'm, 'a, 's) env \<Rightarrow> problem_statement \<Rightarrow> config \<Rightarrow> error + 't BODesigner" where
  "BODesigner_new e p c =
     (if validators_pass c then attrs_post_init e p c else Inl ValueError)"

section \<open>The surrogate model and the acquisition functions\<close>

text \<open>
  Lines 88 to 98: the mean and kernel factories and the Gaussian process are the
  collaborator \<open>SingleTaskGP\<close>, which returns the model together with its likelihood.
\<close>

definition create_model ::
  "('t, 'm, 'a, 's) env \<Rightarrow> 't BODesigner \<Rightarrow> ndarray \<Rightarrow> ndarray \<Rightarrow> 'm" where
  "create_model e d train_X train_Y =
     SingleTaskGP e train_X train_Y (mean_type (cfg d)) (kernel_type (cfg d))"

text \<open>
  Lines 100 to 116. The Python fits the model in place; the embedding returns the
  fitted model. With \<^verbatim>\<open>'adam'\<close>, \<^verbatim>\<open>optim.Adam\<close> compares the learning rate with zero, so
  \<^verbatim>\<open>None\<close> raises \<^verbatim>\<open>TypeError\<close> and a negative rate \<^verbatim>\<open>ValueError\<close>, and
  \<^verbatim>\<open>range(None)\<close> raises \<^verbatim>\<open>TypeError\<close>; the loop body is the collaborator \<open>adam_step\<close>.
\<close>

definition optimize_model ::
  "('t, 'm, 'a, 's) env \<Rightarrow> 't BODesigner \<Rightarrow> 'm \<Rightarrow> ndarray \<Rightarrow> ndarray \<Rightarrow> error + 'm" where
  "optimize_model e d model train_X train_Y =
     (if mll_optimizer (cfg d) = ''l-bfgs'' then Inr (fit_gpytorch_mll e model)
      else if mll_optimizer (cfg d) = ''adam'' then
        (case mll_lr (cfg d) of
           None \<Rightarrow> Inl TypeError
         | Some lr \<Rightarrow>
             if lr < 0 then Inl ValueError
             else (case mll_epochs (cfg d) of
                     None \<Rightarrow> Inl TypeError
                   | Some n \<Rightarrow> Inr ((adam_step e lr train_X train_Y ^^ nat n) model)))
      else Inl (NotImplementedError []))"

text \<open>Lines 118 to 127.\<close>

definition create_acqf ::
  "('t, 'm, 'a, 's) env \<Rightarrow> 't BODesigner \<Rightarrow> 'm \<Rightarrow> ndarray \<Rightarrow> ndarray \<Rightarrow> 'a acqf_value" where
  "create_acqf e d model train_X train_Y =
     (case acqf_type (cfg d) of
        Names ns \<Rightarrow> AcqfList (map (\<lambda>n. acqf_factory e n model train_X train_Y) ns)
      | Name s \<Rightarrow> AcqfSingle (acqf_factory e s model train_X train_Y))"

section \<open>Optimizing the acquisition function\<close>

text \<open>
  Lines 151 to 156, the function \<^verbatim>\<open>acqf_obj\<close>: \<^verbatim>\<open>for acqf_tmp in acqf\<close> iterates over
  the value \<^verbatim>\<open>create_acqf\<close> returned. A Python list is iterated; one acquisition
  function is not iterable, and the \<^verbatim>\<open>for\<close> statement raises \<^verbatim>\<open>TypeError\<close>. Each
  function scores every row as a batch of one point (\<^verbatim>\<open>x.unsqueeze(1)\<close>); \<^verbatim>\<open>torch.hstack\<close>
  of an empty list raises \<^verbatim>\<open>RuntimeError\<close>.
\<close>

definition acqf_obj ::
  "('t, 'm, 'a, 's) env \<Rightarrow> ndarray \<Rightarrow> 'a acqf_value \<Rightarrow> error + ndarray" where
  "acqf_obj e x acqf =
     (case acqf of
        AcqfSingle a \<Rightarrow> Inl TypeError
      | AcqfList fs \<Rightarrow>
          if fs = [] then Inl RuntimeError
          else Inr (map (\<lambda>row. map (\<lambda>f. acqf_call e f row) fs) x))"

text \<open>
  Lines 158 to 161, the generations of the NSGA-II designer.

  Modelled from the spec: \<^verbatim>\<open>TorchExperimenter.evaluate\<close> (module
  \<^verbatim>\<open>bbo.benchmarks.experimenters.torch_experimenter\<close>, not in the sources): "each
  generation, ask it for its population, evaluate the synthetic objective, feed results
  back". The experimenter applies its function, here \<^verbatim>\<open>acqf_obj\<close>, to the features of
  the suggested trials.
\<close>

fun nsgaii_loop ::
  "('t, 'm, 'a, 's) env \<Rightarrow> 'a acqf_value \<Rightarrow> nat \<Rightarrow> 's \<Rightarrow> error + 's" where
  "nsgaii_loop e acqf 0 s = Inr s"
| "nsgaii_loop e acqf (Suc n) s =
     (case nsgaii_suggest e s of
        (x, s') \<Rightarrow>
          (case acqf_obj e x acqf of
             Inl err \<Rightarrow> Inl err
           | Inr y \<Rightarrow> nsgaii_loop e acqf n (nsgaii_update e s' x y)))"

text \<open>\<^verbatim>\<open>dict.get(key, default)\<close> on \<^verbatim>\<open>self._acqf_config\<close>.\<close>

definition dict_get :: "(string \<times> int) list \<Rightarrow> string \<Rightarrow> int \<Rightarrow> int" where
  "dict_get m k dflt = (case map_of m k of None \<Rightarrow> dflt | Some v \<Rightarrow> v)"

definition nsgaii_warning :: string where
  "nsgaii_warning =
     ''NSGA-II is a multi-objective optimization algorithm, but only single objective is defined''"

text \<open>
  Lines 129 to 190. The result is the list of warnings logged and the value returned or
  the exception raised. The bounds of line 130 are the two float32 tensors, widened to
  double. The objective of lines 137 to 142 is the list of its metric names;
  \<^verbatim>\<open>range\<close> of a negative number of epochs is empty.
\<close>

definition optimize_acqf ::
  "('t, 'm, 'a, 's) env \<Rightarrow> 't BODesigner \<Rightarrow> 'a acqf_value \<Rightarrow> string list \<times> (error + ndarray)" where
  "optimize_acqf e d acqf =
     (if acqf_optimizer (cfg d) = ''l-bfgs'' then
        ([], botorch_optimize_acqf e acqf (lb d, ub d) (q (cfg d)))
      else if acqf_optimizer (cfg d) = ''nsgaii'' then
        (let obj = (case acqf_type (cfg d) of Names ns \<Rightarrow> ns | Name s \<Rightarrow> [s]);
             logged = (if length obj \<le> 1 then [nsgaii_warning] else []);
             nsgaii_designer =
               NSGAIIDesigner e \<lparr>search_space = search_space (problem d), metric_names = obj\<rparr>
                 (dict_get (acqf_config (cfg d)) ''pop_size'' 20)
                 (map_of (acqf_config (cfg d)) ''n_offsprings'')
         in case nsgaii_loop e acqf (nat (dict_get (acqf_config (cfg d)) ''epochs'' 200))
                   nsgaii_designer of
              Inl err \<Rightarrow> (logged, Inl err)
            | Inr s \<Rightarrow>
                (let pareto_X = nsgaii_result e s;
                     pop_X = nsgaii_curr_pop e s
                 in (logged, batch_assembly e (q (cfg d)) pareto_X (diff_X pop_X pareto_X))))
      else ([], Inl (NotImplementedError [])))"

section \<open>suggest and update\<close>

text \<open>
  \<^verbatim>\<open>np.concatenate(train_Y, axis=-1)\<close> of line 207. Every label array has one column
  and is given by its values, one per trial; the concatenation has one column for each
  array. numpy refuses an empty list and arrays with different numbers of rows.
\<close>

definition np_concatenate :: "real list list \<Rightarrow> error + ndarray" where
  "np_concatenate cols =
     (case cols of
        [] \<Rightarrow> Inl ValueError
      | c # rest \<Rightarrow>
          if list_all (\<lambda>c'. length c' = length c) rest
          then Inr (map (\<lambda>i. map (\<lambda>col. col ! i) cols) [0..<length c])
          else Inl ValueError)"

text \<open>
  \<^verbatim>\<open>train_Y.mean()\<close> and \<^verbatim>\<open>train_Y.std()\<close> range over all the elements of the array;
  \<^verbatim>\<open>std\<close> is the population standard deviation. On an empty array numpy returns
  \<^verbatim>\<open>nan\<close> with a warning, and the standardized array is empty.
\<close>

definition np_mean :: "ndarray \<Rightarrow> real" where
  "np_mean m = sum_list (concat m) / real (length (concat m))"

definition np_std :: "ndarray \<Rightarrow> real" where
  "np_std m = sqrt (sum_list (map (\<lambda>y. (y - np_mean m)\<^sup>2) (concat m)) / real (length (concat m)))"

text \<open>Line 210.\<close>

definition standardize :: "ndarray \<Rightarrow> ndarray" where
  "standardize m = map (map (\<lambda>y. (y - np_mean m) / (np_std m + 1 / 10 ^ 6))) m"

text \<open>
  Lines 196 to 222, the branch of \<^verbatim>\<open>suggest\<close> taken when the history has at least
  \<^verbatim>\<open>n_init\<close> trials. A dict is the list of its items, with distinct keys. Line 196,
  \<^verbatim>\<open>count = count or 1\<close>, assigns a variable that is not read again, so the branch does
  not take the argument.
\<close>

definition suggest_model_based ::
  "('t, 'm, 'a, 's) env \<Rightarrow> 't BODesigner \<Rightarrow> string list \<times> (error + 't list)" where
  "suggest_model_based e d =
     (case convert e (trials d) of
        (features, labels) \<Rightarrow>
          if \<not> (DOUBLE \<in> set (map fst features) \<and> length features = 1)
          then ([], Inl (NotImplementedError ''Unsupported variable type for BO''))
          else
            (case map_of features DOUBLE of
               None \<Rightarrow> ([], Inl KeyError)
             | Some train_X \<Rightarrow>
                 (case np_concatenate (map snd labels) of
                    Inl err \<Rightarrow> ([], Inl err)
                  | Inr Y \<Rightarrow>
                      if length (map snd labels) > 1
                      then ([], Inl (NotImplementedError ''Unsupported for multiobjective BO''))
                      else
                        (let train_Y = standardize Y;
                             model = create_model e d train_X train_Y
                         in case optimize_model e d model train_X train_Y of
                              Inl err \<Rightarrow> ([], Inl err)
                            | Inr fitted \<Rightarrow>
                                (case optimize_acqf e d (create_acqf e d fitted train_X train_Y) of
                                   (logged, Inl err) \<Rightarrow> (logged, Inl err)
                                 | (logged, Inr next_X) \<Rightarrow>
                                     (logged, Inr (to_trials e [(DOUBLE, next_X)])))))))"

text \<open>
  Lines 192 to 224. The result is paired with the designer after the call: no statement
  of \<^verbatim>\<open>suggest\<close> or of the methods it calls assigns an attribute of \<^verbatim>\<open>self\<close> or changes
  \<^verbatim>\<open>self._trials\<close>, also when an exception is raised.
\<close>

definition suggest ::
  "('t, 'm, 'a, 's) env \<Rightarrow> 't BODesigner \<Rightarrow> int option \<Rightarrow>
     (string list \<times> (error + 't list)) \<times> 't BODesigner" where
  "suggest e d count =
     (if int (length (trials d)) < n_init (cfg d)
      then (([], Inr (init_suggest e count)), d)
      else (suggest_model_based e d, d))"

text \<open>Lines 226 and 227.\<close>

definition update :: "'t BODesigner \<Rightarrow> 't list \<Rightarrow> 't BODesigner" where
  "update d completed = d\<lparr>trials := trials d @ completed\<rparr>"

text \<open>
  A caller's calls, one after the other. An exception of \<^verbatim>\<open>suggest\<close> reaches the caller
  and leaves the designer as it was.
\<close>

datatype 't call = Suggest "int option" | Update "'t list"

fun step :: "('t, 'm, 'a, 's) env \<Rightarrow> 't BODesigner \<Rightarrow> 't call \<Rightarrow> 't BODesigner" where
  "step e d (Suggest count) = snd (suggest e d count)"
| "step e d (Update completed) = update d completed"

definition run :: "('t, 'm, 'a, 's) env \<Rightarrow> 't BODesigner \<Rightarrow> 't call list \<Rightarrow> 't BODesigner" where
  "run e d calls = foldl (step e) d calls"

fun completed_of :: "'t call \<Rightarrow> 't list" where
  "completed_of (Suggest count) = []"
| "completed_of (Update completed) = completed"

section \<open>Contracts of the collaborators\<close>

text \<open>
  numpy's \<^verbatim>\<open>permutation(n)\<close>, drawn inside \<^verbatim>\<open>np.random.choice\<close>, is an arrangement of
  \<^verbatim>\<open>range(n)\<close>: every index once.
\<close>

definition permutation_contract :: "('t, 'm, 'a, 's) env \<Rightarrow> bool" where
  "permutation_contract e \<longleftrightarrow>
     (\<forall>n. distinct (permutation e n) \<and> set (permutation e n) = {..<n})"

text \<open>
  Modelled from the spec: \<^verbatim>\<open>RandomDesigner.suggest\<close> (module \<^verbatim>\<open>bbo.algorithms.random\<close>,
  not in the sources) follows "a uniform \<^verbatim>\<open>suggest(count) -> trials\<close> contract" and
  returns "\<^verbatim>\<open>count\<close> (or an implementation-default) uniformly/space-sampled trials": a
  call with a count returns that many trials.
\<close>

definition random_designer_contract :: "('t, 'm, 'a, 's) env \<Rightarrow> bool" where
  "random_designer_contract e \<longleftrightarrow>
     (\<forall>n. 0 \<le> n \<longrightarrow> int (length (init_suggest e (Some n))) = n)"

text \<open>
  Modelled from the spec: \<^verbatim>\<open>DefaultTrialConverter.to_features\<close> and
  \<^verbatim>\<open>input_converter_dict\<close> (module \<^verbatim>\<open>bbo.utils.converters.converter\<close>, not in the
  sources). The converter "maps a trial to numeric feature arrays": the search space has
  a parameter, and for every name of \<^verbatim>\<open>input_converter_dict\<close> the features hold an
  array with one row for each trial.
\<close>

definition to_features_contract :: "('t, 'm, 'a, 's) env \<Rightarrow> bool" where
  "to_features_contract e \<longleftrightarrow>
     input_converter_dict e \<noteq> [] \<and>
     (\<forall>ts. \<forall>name\<in>set (input_converter_dict e).
        \<exists>v. map_of (to_features e ts) name = Some v \<and> length v = length ts)"

text \<open>
  Modelled from the spec: \<^verbatim>\<open>DefaultTrialConverter.to_trials\<close> (not in the sources) is
  used to "convert the numeric candidates back into Trials": one trial for each row.
\<close>

definition to_trials_contract :: "('t, 'm, 'a, 's) env \<Rightarrow> bool" where
  "to_trials_contract e \<longleftrightarrow> (\<forall>x. length (to_trials e [(DOUBLE, x)]) = length x)"

text \<open>
  Modelled from the spec: the continuous acquisition optimizer (botorch's
  \<^verbatim>\<open>optimize_acqf\<close>), when it returns, "returns exactly \<^verbatim>\<open>q\<close> points".
\<close>

definition botorch_contract :: "('t, 'm, 'a, 's) env \<Rightarrow> bool" where
  "botorch_contract e \<longleftrightarrow>
     (\<forall>acqf b n x. botorch_optimize_acqf e acqf b n = Inr x \<longrightarrow> int (length x) = n)"

text \<open>
  Modelled from the spec: \<^verbatim>\<open>DefaultTrialConverter.from_problem\<close> with
  \<^verbatim>\<open>merge_by_type=True\<close> (not in the sources) "groups features by declared type", and
  \<^verbatim>\<open>output_spec\<close> gives "per feature group, its declared type and bounds": the types of
  the output specs are the declared types of the parameters.
\<close>

definition output_spec_contract :: "('t, 'm, 'a, 's) env \<Rightarrow> problem_statement \<Rightarrow> bool" where
  "output_spec_contract e p \<longleftrightarrow>
     set (map (\<lambda>kv. spec_type (snd kv)) (output_spec e)) = set (map param_type (search_space p))"

text \<open>
  Modelled from the spec: \<^verbatim>\<open>DefaultTrialConverter.convert\<close> (not in the sources) returns
  \<^verbatim>\<open>features_by_type\<close>, a dict whose keys are the declared types of the parameters.
\<close>

definition features_contract :: "('t, 'm, 'a, 's) env \<Rightarrow> problem_statement \<Rightarrow> bool" where
  "features_contract e p \<longleftrightarrow>
     (\<forall>ts. set (map fst (fst (convert e ts))) = set (map param_type (search_space p)))"

section \<open>A concrete instance\<close>

text \<open>
  Collaborators for a search space with the one continuous parameter \<open>x\<close> in \<open>[0, 1]\<close>
  and the one metric \<open>y\<close>. A trial is its feature row, and its label is the sum of the
  row. The theorems below are instantiated with it.
\<close>

definition example_problem :: problem_statement where
  "example_problem =
     \<lparr> search_space = [\<lparr>param_name = ''x'', param_type = DOUBLE\<rparr>], metric_names = [''y''] \<rparr>"

definition example_env :: "(point, unit, unit, unit) env" where
  "example_env = \<lparr>
     init_suggest = (\<lambda>count. replicate (nat (case count of None \<Rightarrow> 1 | Some n \<Rightarrow> n)) [1 / 2]),
     output_spec = [(''x'', \<lparr>spec_type = DOUBLE, bounds = (0, 1)\<rparr>)],
     convert = (\<lambda>ts. ([(DOUBLE, ts)], [(''y'', map sum_list ts)])),
     to_features = (\<lambda>ts. [(''x'', ts)]),
     input_converter_dict = [''x''],
     to_trials = (\<lambda>features. concat (map snd features)),
     cuda_is_available = False,
     torch_device = (\<lambda>name. if name = ''cpu'' \<or> name = ''cuda'' then Inr name else Inl RuntimeError),
     SingleTaskGP = (\<lambda>train_X train_Y mean kernel. ()),
     fit_gpytorch_mll = (\<lambda>model. model),
     adam_step = (\<lambda>lr train_X train_Y model. model),
     acqf_factory = (\<lambda>name model train_X train_Y. ()),
     acqf_call = (\<lambda>acqf x. 0),
     botorch_optimize_acqf =
       (\<lambda>acqf b n. if n < 0 then Inl ValueError else Inr (replicate (nat n) [1 / 4])),
     permutation = (\<lambda>n. [0..<n]),
     NSGAIIDesigner = (\<lambda>p pop_size n_offsprings. ()),
     nsgaii_suggest = (\<lambda>s. ([[1 / 2], [1 / 4]], s)),
     nsgaii_update = (\<lambda>s x y. s),
     nsgaii_result = (\<lambda>s. [[1 / 2]]),
     nsgaii_curr_pop = (\<lambda>s. [[1 / 2], [1 / 4]]) \<rparr>"

definition example_designer :: "config \<Rightarrow> point list \<Rightarrow> point BODesigner" where
  "example_designer c ts =
     \<lparr> problem = example_problem, cfg = c, trials = ts, lb = [Finite 0], ub = [Finite 1],
       self_device = ''cpu'' \<rparr>"

text \<open>
  The same collaborators for the parameter \<open>x\<close> declared in \<open>[0, 1/10]\<close>, with an
  acquisition function that grows with \<open>x\<close>: botorch returns the upper corner of the
  box it is given.
\<close>

definition tenth_env :: "(point, unit, unit, unit) env" where
  "tenth_env = example_env \<lparr>
     output_spec := [(''x'', \<lparr>spec_type = DOUBLE, bounds = (0, 1 / 10)\<rparr>)],
     botorch_optimize_acqf :=
       (\<lambda>acqf b n. if n < 0 then Inl ValueError
                   else Inr (replicate (nat n) (map finite_value (snd b)))) \<rparr>"

section \<open>Lemmas on the numpy operations and the batch assembly\<close>

lemma np_contains_iff:
  "np_contains A x \<longleftrightarrow> (\<exists>r\<in>set A. \<exists>j. j < length r \<and> j < length x \<and> r ! j = x ! j)"
proof
  assume "np_contains A x"
  then obtain r ab where r: "r \<in> set A" and ab: "ab \<in> set (zip r x)" "fst ab = snd ab"
    by (auto simp: np_contains_def list_ex_iff)
  from ab(1) obtain j where "j < length r" "j < length x" "ab = (r ! j, x ! j)"
    by (auto simp: in_set_zip)
  with ab(2) r show "\<exists>r\<in>set A. \<exists>j. j < length r \<and> j < length x \<and> r ! j = x ! j"
    by auto
next
  assume "\<exists>r\<in>set A. \<exists>j. j < length r \<and> j < length x \<and> r ! j = x ! j"
  then obtain r j where r: "r \<in> set A" and j: "j < length r" "j < length x" "r ! j = x ! j"
    by blast
  from j have "(r ! j, x ! j) \<in> set (zip r x)"
    by (auto simp: in_set_zip)
  with j(3) have "\<exists>ab\<in>set (zip r x). case ab of (a, b) \<Rightarrow> a = b"
    by (intro bexI[of _ "(r ! j, x ! j)"]) auto
  with r show "np_contains A x"
    by (auto simp: np_contains_def list_ex_iff)
qed

lemma diff_X_iff:
  "x \<in> set (diff_X pop_X pareto_X) \<longleftrightarrow>
     x \<in> set pop_X \<and> \<not> (\<exists>r\<in>set pareto_X. \<exists>j. j < length r \<and> j < length x \<and> r ! j = x ! j)"
  by (simp add: diff_X_def np_contains_iff)

lemma np_contains_self: "x \<in> set A \<Longrightarrow> x \<noteq> [] \<Longrightarrow> np_contains A x"
  unfolding np_contains_iff by (rule bexI[of _ x]) (auto intro: exI[of _ 0])

lemma take_perm:
  assumes "distinct xs \<and> set xs = {..<n}" and "0 \<le> k" and "k \<le> int n"
  shows "int (length (take (nat k) xs)) = k" "distinct (take (nat k) xs)"
        "\<forall>i\<in>set (take (nat k) xs). i < n"
proof -
  have "length xs = n" using assms(1) distinct_card[of xs] by simp
  then show "int (length (take (nat k) xs)) = k" using assms by simp
  show "distinct (take (nat k) xs)" using assms by simp
  show "\<forall>i\<in>set (take (nat k) xs). i < n" using assms(1) by (auto dest: in_set_takeD)
qed

lemma length_take_rows: "length (take_rows A idx) = length idx"
  by (simp add: take_rows_def)

lemma choice_ok:
  "0 \<le> k \<Longrightarrow> k \<le> n \<Longrightarrow> np_random_choice p n k = Inr (take (nat k) (p (nat n)))"
  by (auto simp: np_random_choice_def)

lemma choice_neg: "k < 0 \<Longrightarrow> np_random_choice p n k = Inl ValueError"
  by (auto simp: np_random_choice_def)

lemma foldl_map2_length:
  "list_all (\<lambda>m'. length m' = length m) rest \<Longrightarrow> length (foldl (map2 (@)) m rest) = length (m::ndarray)"
  by (induction rest arbitrary: m) auto

lemma lookup_all_ok:
  "\<forall>name\<in>set names. \<exists>v. map_of features name = Some v \<and> length v = n \<Longrightarrow>
   \<exists>vs. lookup_all features names = Inr vs \<and> length vs = length names \<and> (\<forall>v\<in>set vs. length v = n)"
  by (induction names) auto

lemma random_fill_ok:
  assumes "random_designer_contract e" "to_features_contract e" "0 < n"
  shows "\<exists>R. random_fill e n = Inr R \<and> int (length R) = n"
proof -
  let ?ts = "init_suggest e (Some n)"
  have len: "int (length ?ts) = n"
    using assms(1,3) by (simp add: random_designer_contract_def)
  from assms(2) have "\<forall>name\<in>set (input_converter_dict e).
        \<exists>v. map_of (to_features e ?ts) name = Some v \<and> length v = length ?ts"
    by (simp add: to_features_contract_def)
  from lookup_all_ok[OF this] obtain vs where vs:
    "lookup_all (to_features e ?ts) (input_converter_dict e) = Inr vs"
    "length vs = length (input_converter_dict e)" "\<forall>v\<in>set vs. length v = length ?ts"
    by blast
  from assms(2) vs(2) obtain m rest where mr: "vs = m # rest"
    by (cases vs) (auto simp: to_features_contract_def)
  with vs(3) have all: "list_all (\<lambda>m'. length m' = length m) rest" and lm: "length m = length ?ts"
    by (auto simp: list_all_iff)
  have "np_hstack vs = Inr (foldl (map2 (@)) m rest)"
    using mr all by (simp add: np_hstack_def)
  moreover have "length (foldl (map2 (@)) m rest) = length ?ts"
    using foldl_map2_length[OF all] lm by simp
  ultimately show ?thesis
    using vs(1) len by (simp add: random_fill_def)
qed

lemma batch_assembly_fill:
  assumes "permutation_contract e" and "int (length pareto_X) < qq"
  shows "batch_assembly e qq pareto_X dX =
         (let S = pareto_X @ take_rows dX (take (nat (min (int (length dX)) (qq - int (length pareto_X))))
                                                (permutation e (length dX)));
              quota = qq - int (length S)
          in if 0 < quota
             then (case random_fill e quota of Inl err \<Rightarrow> Inl err | Inr R \<Rightarrow> Inr (S @ R))
             else Inr S)"
proof (cases "dX = []")
  case True
  then show ?thesis
    using assms(2) by (simp add: batch_assembly_def np_vstack_def take_rows_def Let_def split: sum.splits)
next
  case False
  define k where "k = min (int (length dX)) (qq - int (length pareto_X))"
  have k: "0 \<le> k" "k \<le> int (length dX)"
    using assms(2) by (auto simp: k_def)
  have ch: "np_random_choice (permutation e) (int (length dX)) k
            = Inr (take (nat k) (permutation e (length dX)))"
    using choice_ok[OF k] by simp
  show ?thesis
    using assms(2) False
    by (simp add: batch_assembly_def k_def[symmetric] ch np_vstack_def Let_def split: sum.splits)
qed

lemma example_permutation: "permutation_contract example_env"
  by (simp add: permutation_contract_def example_env_def atLeast0LessThan)

lemma example_random_designer: "random_designer_contract example_env"
  by (simp add: random_designer_contract_def example_env_def)

lemma example_to_features: "to_features_contract example_env"
  by (simp add: to_features_contract_def example_env_def)

lemma example_random_fill: "random_fill example_env n = Inr (replicate (nat n) [1 / 2])"
  by (simp add: random_fill_def example_env_def np_hstack_def)

lemma take_rows_nth: "take_rows A idx = map (\<lambda>i. A ! i) idx"
  by (simp add: take_rows_def)

lemma foldl_map2_rows:
  "list_all (\<lambda>m'. length m' = length m) rest \<Longrightarrow>
   foldl (map2 (@)) m rest = map (\<lambda>j. concat (map (\<lambda>a. a ! j) (m # rest))) [0..<length (m::ndarray)]"
proof (induction rest arbitrary: m)
  case Nil
  show ?case by (simp add: map_nth)
next
  case (Cons a rest)
  let ?m' = "map2 (@) m a"
  from Cons.prems have la: "length a = length m" and rest: "list_all (\<lambda>m'. length m' = length m) rest"
    by simp_all
  have len: "length ?m' = length m" using la by simp
  have "foldl (map2 (@)) m (a # rest) = foldl (map2 (@)) ?m' rest" by simp
  also have "\<dots> = map (\<lambda>j. concat (map (\<lambda>b. b ! j) (?m' # rest))) [0..<length ?m']"
    using rest len by (intro Cons.IH) simp
  also have "\<dots> = map (\<lambda>j. concat (map (\<lambda>b. b ! j) (m # a # rest))) [0..<length m]"
    unfolding len using la by (intro map_cong) auto
  finally show ?case .
qed

lemma lookup_all_the:
  "\<forall>name\<in>set names. \<exists>v. map_of features name = Some v \<Longrightarrow>
   lookup_all features names = Inr (map (\<lambda>name. the (map_of features name)) names)"
  by (induction names) auto

lemma random_fill_rows:
  assumes "random_designer_contract e" "to_features_contract e" "0 < n"
  shows "random_fill e n =
           Inr (map (\<lambda>j. concat (map (\<lambda>name. the (map_of (to_features e (init_suggest e (Some n))) name) ! j)
                               (input_converter_dict e)))
                    [0..<nat n])"
    and "int (length (init_suggest e (Some n))) = n"
proof -
  let ?ts = "init_suggest e (Some n)"
  let ?names = "input_converter_dict e"
  let ?get = "\<lambda>name. the (map_of (to_features e ?ts) name)"
  show len: "int (length ?ts) = n"
    using assms(1,3) by (simp add: random_designer_contract_def)
  from assms(2) have feat: "\<forall>name\<in>set ?names.
        \<exists>v. map_of (to_features e ?ts) name = Some v \<and> length v = length ?ts"
    and ne: "?names \<noteq> []"
    by (simp_all add: to_features_contract_def)
  then have look: "lookup_all (to_features e ?ts) ?names = Inr (map ?get ?names)"
    by (intro lookup_all_the) blast
  have rows: "\<forall>name\<in>set ?names. length (?get name) = length ?ts"
    using feat by auto
  from ne obtain name rest where names: "?names = name # rest" by (cases ?names) auto
  have all: "list_all (\<lambda>m'. length m' = length (?get name)) (map ?get rest)"
    using rows names by (auto simp: list_all_iff)
  have "np_hstack (map ?get ?names) = Inr (foldl (map2 (@)) (?get name) (map ?get rest))"
    using all by (simp add: np_hstack_def names)
  also have "foldl (map2 (@)) (?get name) (map ?get rest) =
      map (\<lambda>j. concat (map (\<lambda>a. a ! j) (?get name # map ?get rest))) [0..<length (?get name)]"
    by (rule foldl_map2_rows[OF all])
  also have "\<dots> = map (\<lambda>j. concat (map (\<lambda>nm. ?get nm ! j) ?names)) [0..<nat n]"
  proof -
    have "length (?get name) = nat n" using rows names len by simp
    then show ?thesis by (simp add: names comp_def)
  qed
  finally show "random_fill e n = Inr (map (\<lambda>j. concat (map (\<lambda>nm. ?get nm ! j) ?names)) [0..<nat n])"
    using look by (simp add: random_fill_def Let_def)
qed

lemma card_arrangements:
  assumes "finite A"
  shows "card {r. distinct r \<and> set r = A} = fact (card A)"
proof -
  have "{r. distinct r \<and> set r = A} = {r. length r = card A \<and> distinct r \<and> set r \<subseteq> A}"
    (is "?L = ?R")
  proof
    show "?L \<subseteq> ?R" by (auto simp: distinct_card)
    show "?R \<subseteq> ?L"
    proof
      fix r assume "r \<in> ?R"
      then have r: "length r = card A" "distinct r" "set r \<subseteq> A" by simp_all
      then have "card (set r) = card A" by (simp add: distinct_card)
      with r(3) assms have "set r = A" by (simp add: card_subset_eq)
      with r(2) show "r \<in> ?L" by simp
    qed
  qed
  also have "card \<dots> = \<Prod>{card A - card A + 1 .. card A}"
    by (rule card_lists_distinct_length_eq[OF assms]) simp
  also have "\<dots> = fact (card A)"
    by (simp add: fact_prod)
  finally show ?thesis .
qed

lemma card_permutations_with_prefix:
  assumes "distinct sel" and "\<forall>i\<in>set sel. i < n"
  shows "card {p. distinct p \<and> set p = {..<n} \<and> take (length sel) p = sel} = fact (n - length sel)"
proof -
  let ?A = "{..<n} - set sel"
  let ?S = "{p. distinct p \<and> set p = {..<n} \<and> take (length sel) p = sel}"
  let ?T = "{r. distinct r \<and> set r = ?A}"
  have sub: "set sel \<subseteq> {..<n}" using assms(2) by auto
  have cardA: "card ?A = n - length sel"
    using sub assms(1) by (simp add: card_Diff_subset distinct_card)
  have "?S = (\<lambda>r. sel @ r) ` ?T"
  proof (intro set_eqI iffI)
    fix p assume "p \<in> ?S"
    then have p: "distinct p" "set p = {..<n}" "take (length sel) p = sel" by simp_all
    define r where "r = drop (length sel) p"
    have pr: "p = sel @ r" using p(3) by (simp add: r_def) (metis append_take_drop_id)
    with p(1,2) have "distinct r" "set r = ?A" by auto
    with pr show "p \<in> (\<lambda>r. sel @ r) ` ?T" by blast
  next
    fix p assume "p \<in> (\<lambda>r. sel @ r) ` ?T"
    then obtain r where r: "p = sel @ r" "distinct r" "set r = ?A" by blast
    with assms(1) sub show "p \<in> ?S" by auto
  qed
  moreover have "inj_on (\<lambda>r. sel @ r) ?T" by (simp add: inj_on_def)
  ultimately have "card ?S = card ?T" by (simp add: card_image)
  also have "\<dots> = fact (card ?A)" by (rule card_arrangements) simp
  finally show ?thesis by (simp add: cardA)
qed

lemma map_nth_inj:
  assumes "distinct A" "\<forall>i\<in>set xs. i < length A" "\<forall>i\<in>set ys. i < length A"
      and "map (\<lambda>i. A ! i) xs = map (\<lambda>i. A ! i) ys"
  shows "xs = ys"
proof (rule nth_equalityI)
  from assms(4) show len: "length xs = length ys" by (metis length_map)
  fix i assume i: "i < length xs"
  with assms(4) len have "A ! (xs ! i) = A ! (ys ! i)"
    by (metis length_map nth_map)
  moreover have "xs ! i < length A" "ys ! i < length A"
    using assms(2,3) i len by auto
  ultimately show "xs ! i = ys ! i"
    using assms(1) by (simp add: nth_eq_iff_index_eq)
qed

lemma batch_assembly_pareto:
  assumes "0 \<le> qq" "qq \<le> int (length pareto_X)"
  shows "batch_assembly e qq pareto_X dX =
           Inr (map (\<lambda>i. pareto_X ! i) (take (nat qq) (permutation e (length pareto_X))))"
  using assms by (simp add: batch_assembly_def choice_ok take_rows_nth)

lemma random_fill_permutation: "random_fill (e\<lparr>permutation := f\<rparr>) n = random_fill e n"
  by (simp add: random_fill_def)

lemma batch_assembly_fill_rows:
  assumes "permutation_contract e" "random_designer_contract e" "to_features_contract e"
      and "int (length pareto_X) < qq"
  shows "batch_assembly e qq pareto_X dX =
     Inr (pareto_X @
          map (\<lambda>i. dX ! i)
            (take (nat (min (int (length dX)) (qq - int (length pareto_X)))) (permutation e (length dX))) @
          (if 0 < qq - int (length pareto_X) - min (int (length dX)) (qq - int (length pareto_X))
           then map (\<lambda>j. concat (map (\<lambda>name. the (map_of (to_features e (init_suggest e
                        (Some (qq - int (length pareto_X) - min (int (length dX)) (qq - int (length pareto_X)))))) name) ! j)
                               (input_converter_dict e)))
                    [0..<nat (qq - int (length pareto_X) - min (int (length dX)) (qq - int (length pareto_X)))]
           else []))"
proof -
  define k where "k = min (int (length dX)) (qq - int (length pareto_X))"
  define idx where "idx = take (nat k) (permutation e (length dX))"
  define r where "r = qq - int (length pareto_X) - k"
  have k0: "0 \<le> k" and kd: "k \<le> int (length dX)"
    using assms(4) by (auto simp: k_def)
  have p: "distinct (permutation e (length dX)) \<and> set (permutation e (length dX)) = {..<length dX}"
    using assms(1) by (simp add: permutation_contract_def)
  have len: "int (length idx) = k" unfolding idx_def by (rule take_perm(1)[OF p k0 kd])
  have quota: "qq - int (length (pareto_X @ take_rows dX idx)) = r"
    using len by (simp add: r_def length_take_rows)
  have run: "batch_assembly e qq pareto_X dX =
          (if 0 < r
           then (case random_fill e r of Inl err \<Rightarrow> Inl err
                 | Inr R \<Rightarrow> Inr ((pareto_X @ take_rows dX idx) @ R))
           else Inr (pareto_X @ take_rows dX idx))"
    unfolding batch_assembly_fill[OF assms(1,4)] Let_def k_def[symmetric] idx_def[symmetric] quota ..
  show ?thesis
    unfolding k_def[symmetric] r_def[symmetric] idx_def[symmetric]
  proof (cases "0 < r")
    case True
    from random_fill_rows(1)[OF assms(2,3) True] run True
    show "batch_assembly e qq pareto_X dX =
     Inr (pareto_X @ map (\<lambda>i. dX ! i) idx @
          (if 0 < r
           then map (\<lambda>j. concat (map (\<lambda>name. the (map_of (to_features e (init_suggest e (Some r))) name) ! j)
                               (input_converter_dict e))) [0..<nat r]
           else []))"
      by (simp add: take_rows_nth)
  next
    case False
    with run
    show "batch_assembly e qq pareto_X dX =
     Inr (pareto_X @ map (\<lambda>i. dX ! i) idx @
          (if 0 < r
           then map (\<lambda>j. concat (map (\<lambda>name. the (map_of (to_features e (init_suggest e (Some r))) name) ! j)
                               (input_converter_dict e))) [0..<nat r]
           else []))"
      by (simp add: take_rows_nth)
  qed
qed

section \<open>Lemmas on float32 rounding\<close>

lemma float32_exponent_from_found:
  assumes "2 powi e \<le> a" "a < 2 powi (e + 1)" "e \<le> e0" "e0 - e \<le> int n"
  shows "float32_exponent_from n e0 a = e"
  using assms
proof (induction n arbitrary: e0)
  case 0
  then show ?case by simp
next
  case (Suc n)
  show ?case
  proof (cases "e0 = e")
    case True
    with Suc.prems show ?thesis by simp
  next
    case False
    with Suc.prems have lt: "e + 1 \<le> e0" by simp
    have "(2::real) powi (e + 1) \<le> 2 powi e0"
      by (rule power_int_increasing[OF lt]) simp
    with Suc.prems have "\<not> 2 powi e0 \<le> a" by simp
    moreover have "float32_exponent_from n (e0 - 1) a = e"
      using Suc.prems lt by (intro Suc.IH) simp_all
    ultimately show ?thesis by simp
  qed
qed

lemma float32_exponent_normal:
  assumes "2 powi e \<le> a" "a < 2 powi (e + 1)" "- 126 \<le> e" "e \<le> 127"
  shows "float32_exponent a = e"
  unfolding float32_exponent_def
  using assms by (intro float32_exponent_from_found) simp_all

lemma float32_exponent_from_none:
  "a < 2 powi (e0 - int n) \<Longrightarrow> float32_exponent_from n e0 a = e0 - int n"
proof (induction n arbitrary: e0)
  case 0
  then show ?case by simp
next
  case (Suc n)
  have "(2::real) powi (e0 - int (Suc n)) \<le> 2 powi e0"
    by (rule power_int_increasing) simp_all
  with Suc.prems have "\<not> 2 powi e0 \<le> a" by simp
  moreover have "float32_exponent_from n (e0 - 1) a = e0 - 1 - int n"
    using Suc.prems by (intro Suc.IH) (simp add: algebra_simps)
  ultimately show ?case by simp
qed

lemma float32_exponent_subnormal:
  assumes "a < 2 powi (- 126)"
  shows "float32_exponent a = - 126"
  unfolding float32_exponent_def
  using float32_exponent_from_none[of a 127 253] assms by simp

lemma to_float32_tenth: "to_float32 (1 / 10) = Finite (13421773 / 134217728)"
proof -
  have e: "float32_exponent (1 / 10) = - 4"
    by (rule float32_exponent_normal) simp_all
  show ?thesis
    by (simp add: to_float32_def e round_half_even_def Let_def)
qed

lemma to_float32_0: "to_float32 0 = Finite 0"
proof -
  have e: "float32_exponent 0 = - 126"
    by (rule float32_exponent_subnormal) simp
  show ?thesis
    by (simp add: to_float32_def e round_half_even_def Let_def)
qed

lemma to_float32_1: "to_float32 1 = Finite 1"
proof -
  have e: "float32_exponent 1 = 0"
    by (rule float32_exponent_normal) simp_all
  show ?thesis
    by (simp add: to_float32_def e round_half_even_def Let_def)
qed

section \<open>The set difference of the population and the Pareto set\<close>

text \<open>
  Claim C4. The spec takes \<^verbatim>\<open>diff_X\<close> to hold the rows of \<^verbatim>\<open>pop_X\<close> that are not rows of
  \<^verbatim>\<open>pareto_X\<close>. The source tests \<^verbatim>\<open>x not in pareto_X\<close> on numpy arrays, which compares
  element by element: with the Pareto set \<open>[[1, 5]]\<close> and the population
  \<open>[[1, 5], [1, 2]]\<close>, the row \<open>[1, 2]\<close> is not a row of the Pareto set, yet it is left out
  of \<^verbatim>\<open>diff_X\<close>, because its first coordinate is the first coordinate of \<open>[1, 5]\<close>.
\<close>

theorem diff_X_shared_coordinate:
  "diff_X [[1, 5], [1, 2]] [[1, 5]] = [] \<and> [1, 2] \<notin> set [[1, 5 :: real]]"
  by (simp add: diff_X_def np_contains_def)

section \<open>A Pareto set that fills the batch\<close>

text \<open>
  Claim C3. When the Pareto set has at least \<open>q\<close> rows, and numpy's permutation is an
  arrangement of the indices: the batch is the rows of the Pareto set at the first \<open>q\<close>
  indices of the permutation drawn for \<^verbatim>\<open>np.random.choice(len(pareto_X), q, replace=False)\<close>,
  in the order of the indices; the indices are distinct and in range, so the batch is a
  sample of exactly \<open>q\<close> rows without replacement; none of its rows is a row of
  \<^verbatim>\<open>diff_X\<close> (when rows have a coordinate); and the batch is the same whatever
  \<^verbatim>\<open>diff_X\<close> holds and whatever the random sub-designer and the converter would return.
  The draw is uniform in this sense: when the rows of the Pareto set are distinct, every
  arrangement of \<open>q\<close> distinct indices is the batch of exactly \<open>(n - q)!\<close> of the \<open>n!\<close>
  permutations of the \<open>n\<close> indices, so that a permutation drawn uniformly gives every
  arrangement of \<open>q\<close> rows the same probability. A negative \<open>q\<close> is refused by numpy.
\<close>

theorem batch_assembly_pareto_only:
  assumes "permutation_contract e" and "qq \<le> int (length pareto_X)"
  shows "(qq < 0 \<longrightarrow> batch_assembly e qq pareto_X dX = Inl ValueError) \<and>
         (0 \<le> qq \<longrightarrow>
            (let idx = take (nat qq) (permutation e (length pareto_X))
             in batch_assembly e qq pareto_X dX = Inr (map (\<lambda>i. pareto_X ! i) idx) \<and>
                int (length idx) = qq \<and> distinct idx \<and> (\<forall>i\<in>set idx. i < length pareto_X) \<and>
                ([] \<notin> set pareto_X \<longrightarrow>
                   (\<forall>i\<in>set idx. pareto_X ! i \<notin> set (diff_X pop_X pareto_X))) \<and>
                (\<forall>f g dX'.
                   batch_assembly (e\<lparr>init_suggest := f, to_features := g\<rparr>) qq pareto_X dX' =
                   Inr (map (\<lambda>i. pareto_X ! i) idx)))) \<and>
         (0 \<le> qq \<and> distinct pareto_X \<longrightarrow>
            (\<forall>sel. length sel = nat qq \<and> distinct sel \<and> (\<forall>i\<in>set sel. i < length pareto_X) \<longrightarrow>
               card {p. distinct p \<and> set p = {..<length pareto_X} \<and>
                        batch_assembly (e\<lparr>permutation := (\<lambda>n. p)\<rparr>) qq pareto_X dX =
                          Inr (map (\<lambda>i. pareto_X ! i) sel)}
                 = fact (length pareto_X - nat qq)))"
proof (intro conjI impI allI)
  assume "qq < 0"
  then show "batch_assembly e qq pareto_X dX = Inl ValueError"
    using assms(2) by (simp add: batch_assembly_def choice_neg)
next
  assume q0: "0 \<le> qq"
  let ?idx = "take (nat qq) (permutation e (length pareto_X))"
  have p: "distinct (permutation e (length pareto_X)) \<and>
           set (permutation e (length pareto_X)) = {..<length pareto_X}"
    using assms(1) by (simp add: permutation_contract_def)
  have run: "batch_assembly e qq pareto_X dX' = Inr (map (\<lambda>i. pareto_X ! i) ?idx)" for dX'
    by (rule batch_assembly_pareto[OF q0 assms(2)])
  have run': "batch_assembly (e\<lparr>init_suggest := f, to_features := g\<rparr>) qq pareto_X dX' =
                Inr (map (\<lambda>i. pareto_X ! i) ?idx)" for f g dX'
    using batch_assembly_pareto[OF q0 assms(2), of "e\<lparr>init_suggest := f, to_features := g\<rparr>" dX']
    by simp
  have len: "int (length ?idx) = qq" by (rule take_perm(1)[OF p q0 assms(2)])
  have dist: "distinct ?idx" by (rule take_perm(2)[OF p q0 assms(2)])
  have bnd: "\<forall>i\<in>set ?idx. i < length pareto_X" by (rule take_perm(3)[OF p q0 assms(2)])
  have disj: "\<forall>i\<in>set ?idx. pareto_X ! i \<notin> set (diff_X pop_X pareto_X)" if "[] \<notin> set pareto_X"
  proof
    fix i assume "i \<in> set ?idx"
    with bnd have x: "pareto_X ! i \<in> set pareto_X" by simp
    with that have "pareto_X ! i \<noteq> []" by auto
    from np_contains_self[OF x this] show "pareto_X ! i \<notin> set (diff_X pop_X pareto_X)"
      by (simp add: diff_X_def)
  qed
  show "let idx = ?idx
        in batch_assembly e qq pareto_X dX = Inr (map (\<lambda>i. pareto_X ! i) idx) \<and>
           int (length idx) = qq \<and> distinct idx \<and> (\<forall>i\<in>set idx. i < length pareto_X) \<and>
           ([] \<notin> set pareto_X \<longrightarrow>
              (\<forall>i\<in>set idx. pareto_X ! i \<notin> set (diff_X pop_X pareto_X))) \<and>
           (\<forall>f g dX'.
              batch_assembly (e\<lparr>init_suggest := f, to_features := g\<rparr>) qq pareto_X dX' =
              Inr (map (\<lambda>i. pareto_X ! i) idx))"
    unfolding Let_def using run run' len dist bnd disj by blast
next
  fix sel
  assume a: "0 \<le> qq \<and> distinct pareto_X"
    and s: "length sel = nat qq \<and> distinct sel \<and> (\<forall>i\<in>set sel. i < length pareto_X)"
  let ?n = "length pareto_X"
  have q: "nat qq \<le> ?n" using assms(2) a by simp
  have "{p. distinct p \<and> set p = {..<?n} \<and>
            batch_assembly (e\<lparr>permutation := (\<lambda>n. p)\<rparr>) qq pareto_X dX =
              Inr (map (\<lambda>i. pareto_X ! i) sel)}
        = {p. distinct p \<and> set p = {..<?n} \<and> take (length sel) p = sel}"
  proof (intro Collect_cong conj_cong refl)
    fix p assume p: "distinct p" "set p = {..<?n}"
    have run: "batch_assembly (e\<lparr>permutation := (\<lambda>n. p)\<rparr>) qq pareto_X dX =
          Inr (map (\<lambda>i. pareto_X ! i) (take (nat qq) p))"
      using batch_assembly_pareto[of qq pareto_X "e\<lparr>permutation := (\<lambda>n. p)\<rparr>" dX] a assms(2)
      by simp
    have inr: "\<forall>i\<in>set (take (nat qq) p). i < ?n"
      using p(2) by (auto dest: in_set_takeD)
    show "(batch_assembly (e\<lparr>permutation := (\<lambda>n. p)\<rparr>) qq pareto_X dX =
              Inr (map (\<lambda>i. pareto_X ! i) sel)) = (take (length sel) p = sel)"
    proof
      assume "batch_assembly (e\<lparr>permutation := (\<lambda>n. p)\<rparr>) qq pareto_X dX =
              Inr (map (\<lambda>i. pareto_X ! i) sel)"
      with run have "map (\<lambda>i. pareto_X ! i) (take (nat qq) p) = map (\<lambda>i. pareto_X ! i) sel"
        by simp
      from map_nth_inj[OF _ inr _ this] a s show "take (length sel) p = sel" by simp
    next
      assume "take (length sel) p = sel"
      with run s show "batch_assembly (e\<lparr>permutation := (\<lambda>n. p)\<rparr>) qq pareto_X dX =
              Inr (map (\<lambda>i. pareto_X ! i) sel)" by simp
    qed
  qed
  also have "card \<dots> = fact (?n - length sel)"
    using s by (intro card_permutations_with_prefix) simp_all
  finally show "card {p. distinct p \<and> set p = {..<?n} \<and>
                        batch_assembly (e\<lparr>permutation := (\<lambda>n. p)\<rparr>) qq pareto_X dX =
                          Inr (map (\<lambda>i. pareto_X ! i) sel)}
                 = fact (?n - nat qq)"
    using s by simp
qed

theorem batch_assembly_pareto_only_witness:
  "permutation_contract (example_env\<lparr>permutation := (\<lambda>n. rev [0..<n])\<rparr>) \<and>
   2 \<le> int (length [[1 / 2], [3 / 4], [1 / 8 :: real]]) \<and>
   batch_assembly (example_env\<lparr>permutation := (\<lambda>n. rev [0..<n])\<rparr>) 2
     [[1 / 2], [3 / 4], [1 / 8]] [[1 / 4]] = Inr [[1 / 8], [3 / 4]] \<and>
   card {p. distinct p \<and> set p = {..<length [[1 / 2], [3 / 4], [1 / 8 :: real]]} \<and>
            batch_assembly (example_env\<lparr>permutation := (\<lambda>n. rev [0..<n]), permutation := (\<lambda>n. p)\<rparr>) 2
              [[1 / 2], [3 / 4], [1 / 8]] [[1 / 4]] = Inr (map (\<lambda>i. [[1 / 2], [3 / 4], [1 / 8]] ! i) [2, 0])}
     = fact (length [[1 / 2], [3 / 4], [1 / 8 :: real]] - nat 2)"
proof -
  let ?e = "example_env\<lparr>permutation := (\<lambda>n. rev [0..<n])\<rparr>"
  let ?P = "[[1 / 2], [3 / 4], [1 / 8 :: real]]"
  have h1: "permutation_contract ?e"
    by (simp add: permutation_contract_def atLeast0LessThan)
  have h2: "2 \<le> int (length ?P)" by simp
  note inst = batch_assembly_pareto_only[OF h1 h2, of "[[1 / 4]]" "[]"]
  have perm: "permutation ?e (length ?P) = [2, 1, 0]"
    by (simp add: upt_rec)
  from inst have "batch_assembly ?e 2 ?P [[1 / 4]] =
      Inr (map (\<lambda>i. ?P ! i) (take (nat 2) (permutation ?e (length ?P))))"
    by (simp add: Let_def)
  then have b: "batch_assembly ?e 2 ?P [[1 / 4]] = Inr [[1 / 8], [3 / 4]]"
    unfolding perm by (simp add: numeral_2_eq_2)
  from inst have "\<forall>sel. length sel = nat 2 \<and> distinct sel \<and> (\<forall>i\<in>set sel. i < length ?P) \<longrightarrow>
               card {p. distinct p \<and> set p = {..<length ?P} \<and>
                        batch_assembly (?e\<lparr>permutation := (\<lambda>n. p)\<rparr>) 2 ?P [[1 / 4]] =
                          Inr (map (\<lambda>i. ?P ! i) sel)}
                 = fact (length ?P - nat 2)"
    by simp
  then have "card {p. distinct p \<and> set p = {..<length ?P} \<and>
                        batch_assembly (?e\<lparr>permutation := (\<lambda>n. p)\<rparr>) 2 ?P [[1 / 4]] =
                          Inr (map (\<lambda>i. ?P ! i) [2, 0])}
                 = fact (length ?P - nat 2)"
    by (rule allE[of _ "[2, 0]"]) simp
  with h1 h2 b show ?thesis by simp
qed

section \<open>A Pareto set smaller than the batch\<close>

text \<open>
  Claim C2. When the Pareto set has fewer than \<open>q\<close> rows, for collaborators that keep
  their contracts, the batch is, in this order: all rows of the Pareto set; then the rows
  of \<^verbatim>\<open>diff_X\<close> at the first \<open>k = min(|diff_X|, q - |pareto_X|)\<close> indices of the
  permutation numpy draws, which are distinct and in range (a sample without
  replacement); then, when \<open>r = q - |pareto_X| - k\<close> is positive, \<open>r\<close> rows of the
  bootstrap sampler: row \<open>j\<close> is row \<open>j\<close> of the feature arrays, side by side in the
  order of the converter's input names, of the \<open>r\<close> trials that the random sub-designer
  returns for the count \<open>r\<close>, which are the trials \<^verbatim>\<open>suggest(r)\<close> returns in the
  bootstrap state. The batch has exactly \<open>q\<close> rows. When the rows of \<^verbatim>\<open>diff_X\<close> are
  distinct, every arrangement of \<open>k\<close> distinct indices is drawn by exactly
  \<open>(|diff_X| - k)!\<close> of the permutations, so a uniform permutation gives every
  arrangement the same probability.
\<close>

theorem batch_assembly_fill_order:
  assumes "permutation_contract e" "random_designer_contract e" "to_features_contract e"
      and "int (length pareto_X) < qq"
  shows "let k = min (int (length dX)) (qq - int (length pareto_X));
             idx = take (nat k) (permutation e (length dX));
             r = qq - int (length pareto_X) - k;
             ts = init_suggest e (Some r);
             R = (if 0 < r
                  then map (\<lambda>j. concat (map (\<lambda>name. the (map_of (to_features e ts) name) ! j)
                                      (input_converter_dict e)))
                           [0..<nat r]
                  else [])
         in batch_assembly e qq pareto_X dX = Inr (pareto_X @ map (\<lambda>i. dX ! i) idx @ R) \<and>
            int (length idx) = k \<and> distinct idx \<and> (\<forall>i\<in>set idx. i < length dX) \<and>
            int (length R) = r \<and>
            int (length (pareto_X @ map (\<lambda>i. dX ! i) idx @ R)) = qq \<and>
            (0 < r \<longrightarrow> int (length ts) = r \<and>
               (\<forall>d. int (length (trials d)) < n_init (cfg d) \<longrightarrow>
                    fst (suggest e d (Some r)) = ([], Inr ts))) \<and>
            (distinct dX \<longrightarrow>
               (\<forall>sel. length sel = nat k \<and> distinct sel \<and> (\<forall>i\<in>set sel. i < length dX) \<longrightarrow>
                  card {p. distinct p \<and> set p = {..<length dX} \<and>
                           batch_assembly (e\<lparr>permutation := (\<lambda>n. p)\<rparr>) qq pareto_X dX =
                             Inr (pareto_X @ map (\<lambda>i. dX ! i) sel @ R)}
                    = fact (length dX - nat k)))"
proof -
  define k where "k = min (int (length dX)) (qq - int (length pareto_X))"
  define idx where "idx = take (nat k) (permutation e (length dX))"
  define r where "r = qq - int (length pareto_X) - k"
  define ts where "ts = init_suggest e (Some r)"
  define R where "R = (if 0 < r
                  then map (\<lambda>j. concat (map (\<lambda>name. the (map_of (to_features e ts) name) ! j)
                                      (input_converter_dict e)))
                           [0..<nat r]
                  else [])"
  have k0: "0 \<le> k" and kd: "k \<le> int (length dX)" and r0: "0 \<le> r"
    using assms(4) by (auto simp: k_def r_def)
  have p: "distinct (permutation e (length dX)) \<and> set (permutation e (length dX)) = {..<length dX}"
    using assms(1) by (simp add: permutation_contract_def)
  have len: "int (length idx) = k" unfolding idx_def by (rule take_perm(1)[OF p k0 kd])
  have dist: "distinct idx" unfolding idx_def by (rule take_perm(2)[OF p k0 kd])
  have bnd: "\<forall>i\<in>set idx. i < length dX" unfolding idx_def by (rule take_perm(3)[OF p k0 kd])
  have run: "batch_assembly e qq pareto_X dX = Inr (pareto_X @ map (\<lambda>i. dX ! i) idx @ R)"
    unfolding batch_assembly_fill_rows[OF assms] k_def[symmetric] r_def[symmetric]
      idx_def[symmetric] ts_def[symmetric] R_def[symmetric] ..
  have lenR: "int (length R) = r" using r0 by (simp add: R_def)
  have total: "int (length (pareto_X @ map (\<lambda>i. dX ! i) idx @ R)) = qq"
    using len lenR by (simp add: r_def)
  have boot: "int (length ts) = r \<and>
               (\<forall>d. int (length (trials d)) < n_init (cfg d) \<longrightarrow>
                    fst (suggest e d (Some r)) = ([], Inr ts))" if "0 < r"
    using random_fill_rows(2)[OF assms(2,3) that] by (simp add: ts_def suggest_def)
  have unif: "card {p. distinct p \<and> set p = {..<length dX} \<and>
                           batch_assembly (e\<lparr>permutation := (\<lambda>n. p)\<rparr>) qq pareto_X dX =
                             Inr (pareto_X @ map (\<lambda>i. dX ! i) sel @ R)}
                    = fact (length dX - nat k)"
    if d: "distinct dX" and s: "length sel = nat k \<and> distinct sel \<and> (\<forall>i\<in>set sel. i < length dX)" for sel
  proof -
    have "{p. distinct p \<and> set p = {..<length dX} \<and>
              batch_assembly (e\<lparr>permutation := (\<lambda>n. p)\<rparr>) qq pareto_X dX =
                Inr (pareto_X @ map (\<lambda>i. dX ! i) sel @ R)}
          = {p. distinct p \<and> set p = {..<length dX} \<and> take (length sel) p = sel}"
    proof (intro Collect_cong conj_cong refl)
      fix p assume pp: "distinct p" "set p = {..<length dX}"
      let ?e = "e\<lparr>permutation := (\<lambda>n. p)\<rparr>"
      have run_p: "batch_assembly ?e qq pareto_X dX =
          Inr (pareto_X @ map (\<lambda>i. dX ! i) (take (nat k) p) @ R)"
      proof (cases "dX = []")
        case True
        with pp have "p = []" by simp
        then have "batch_assembly ?e qq pareto_X dX = batch_assembly e qq pareto_X dX"
          using True assms(4)
          by (simp add: batch_assembly_def random_fill_permutation np_vstack_def Let_def)
        moreover have "k = 0" using True assms(4) by (simp add: k_def)
        ultimately show ?thesis using run True \<open>p = []\<close> by (simp add: idx_def)
      next
        case False
        have form: "batch_assembly ?e qq pareto_X dX =
              (let S = pareto_X @ take_rows dX (take (nat k) p);
                   quota = qq - int (length S)
               in if 0 < quota
                  then (case random_fill ?e quota of Inl err \<Rightarrow> Inl err | Inr R \<Rightarrow> Inr (S @ R))
                  else Inr S)"
          using assms(4) False k0 kd
          by (simp add: batch_assembly_def k_def[symmetric] choice_ok np_vstack_def Let_def
              split: sum.splits)
        have lenp: "length (take (nat k) p) = nat k"
          using pp kd distinct_card[of p] by simp
        have quota: "qq - int (length (pareto_X @ take_rows dX (take (nat k) p))) = r"
          using lenp k0 by (simp add: r_def length_take_rows)
        have form': "batch_assembly ?e qq pareto_X dX =
            (if 0 < r
             then (case random_fill e r of Inl err \<Rightarrow> Inl err
                   | Inr R \<Rightarrow> Inr ((pareto_X @ take_rows dX (take (nat k) p)) @ R))
             else Inr (pareto_X @ take_rows dX (take (nat k) p)))"
          unfolding form Let_def quota random_fill_permutation ..
        show ?thesis
        proof (cases "0 < r")
          case True
          from random_fill_rows(1)[OF assms(2,3) True] True have "random_fill e r = Inr R"
            by (simp add: R_def ts_def)
          with form' True show ?thesis by (simp add: take_rows_nth)
        next
          case False
          then have "R = []" by (simp add: R_def)
          with form' False show ?thesis by (simp add: take_rows_nth)
        qed
      qed
      have inr: "\<forall>i\<in>set (take (nat k) p). i < length dX"
        using pp(2) by (auto dest: in_set_takeD)
      show "(batch_assembly ?e qq pareto_X dX = Inr (pareto_X @ map (\<lambda>i. dX ! i) sel @ R))
            = (take (length sel) p = sel)"
      proof
        assume "batch_assembly ?e qq pareto_X dX = Inr (pareto_X @ map (\<lambda>i. dX ! i) sel @ R)"
        with run_p have "map (\<lambda>i. dX ! i) (take (nat k) p) = map (\<lambda>i. dX ! i) sel" by simp
        from map_nth_inj[OF d inr _ this] s show "take (length sel) p = sel" by simp
      next
        assume "take (length sel) p = sel"
        with run_p s show "batch_assembly ?e qq pareto_X dX =
            Inr (pareto_X @ map (\<lambda>i. dX ! i) sel @ R)" by simp
      qed
    qed
    also have "card \<dots> = fact (length dX - length sel)"
      using s by (intro card_permutations_with_prefix) simp_all
    finally show ?thesis using s by simp
  qed
  show ?thesis
    unfolding Let_def k_def[symmetric] idx_def[symmetric] r_def[symmetric] ts_def[symmetric]
      R_def[symmetric]
    using run len dist bnd lenR total boot unif by blast
qed

theorem batch_assembly_fill_order_witness:
  "permutation_contract
     (example_env\<lparr>init_suggest := (\<lambda>count. map (\<lambda>i. [1 / (3 + real i), 3])
                                          [0..<nat (case count of None \<Rightarrow> 1 | Some n \<Rightarrow> n)]),
                  to_features := (\<lambda>ts. [(''x'', map (take 1) ts), (''z'', map (drop 1) ts)]),
                  input_converter_dict := [''x'', ''z''],
                  permutation := (\<lambda>n. rev [0..<n])\<rparr>) \<and>
   random_designer_contract
     (example_env\<lparr>init_suggest := (\<lambda>count. map (\<lambda>i. [1 / (3 + real i), 3])
                                          [0..<nat (case count of None \<Rightarrow> 1 | Some n \<Rightarrow> n)]),
                  to_features := (\<lambda>ts. [(''x'', map (take 1) ts), (''z'', map (drop 1) ts)]),
                  input_converter_dict := [''x'', ''z''],
                  permutation := (\<lambda>n. rev [0..<n])\<rparr>) \<and>
   to_features_contract
     (example_env\<lparr>init_suggest := (\<lambda>count. map (\<lambda>i. [1 / (3 + real i), 3])
                                          [0..<nat (case count of None \<Rightarrow> 1 | Some n \<Rightarrow> n)]),
                  to_features := (\<lambda>ts. [(''x'', map (take 1) ts), (''z'', map (drop 1) ts)]),
                  input_converter_dict := [''x'', ''z''],
                  permutation := (\<lambda>n. rev [0..<n])\<rparr>) \<and>
   int (length [[1 / 2, 1 / 2 :: real]]) < 5 \<and>
   batch_assembly
     (example_env\<lparr>init_suggest := (\<lambda>count. map (\<lambda>i. [1 / (3 + real i), 3])
                                          [0..<nat (case count of None \<Rightarrow> 1 | Some n \<Rightarrow> n)]),
                  to_features := (\<lambda>ts. [(''x'', map (take 1) ts), (''z'', map (drop 1) ts)]),
                  input_converter_dict := [''x'', ''z''],
                  permutation := (\<lambda>n. rev [0..<n])\<rparr>)
     5 [[1 / 2, 1 / 2]] [[1 / 4, 1 / 4], [1 / 8, 1 / 8], [1 / 16, 1 / 16]]
   = Inr [[1 / 2, 1 / 2], [1 / 16, 1 / 16], [1 / 8, 1 / 8], [1 / 4, 1 / 4], [1 / 3, 3]]"
proof -
  let ?e = "example_env\<lparr>init_suggest := (\<lambda>count. map (\<lambda>i. [1 / (3 + real i), 3])
                                          [0..<nat (case count of None \<Rightarrow> 1 | Some n \<Rightarrow> n)]),
                  to_features := (\<lambda>ts. [(''x'', map (take 1) ts), (''z'', map (drop 1) ts)]),
                  input_converter_dict := [''x'', ''z''],
                  permutation := (\<lambda>n. rev [0..<n])\<rparr>"
  let ?P = "[[1 / 2, 1 / 2 :: real]]"
  let ?D = "[[1 / 4, 1 / 4], [1 / 8, 1 / 8], [1 / 16, 1 / 16 :: real]]"
  have h1: "permutation_contract ?e"
    by (simp add: permutation_contract_def atLeast0LessThan)
  have h2: "random_designer_contract ?e"
    by (simp add: random_designer_contract_def)
  have h3: "to_features_contract ?e"
    by (simp add: to_features_contract_def)
  have h4: "int (length ?P) < 5" by simp
  have perm: "permutation ?e (length ?D) = [2, 1, 0]"
    by (simp add: upt_rec)
  have ts: "init_suggest ?e (Some 1) = [[1 / 3, 3]]"
    by simp
  have names: "input_converter_dict ?e = [''x'', ''z'']"
    and feat: "to_features ?e [[1 / 3, 3]] = [(''x'', [[1 / 3]]), (''z'', [[3]])]"
    by simp_all
  from batch_assembly_fill_order[OF h1 h2 h3 h4, of ?D]
  have "batch_assembly ?e 5 ?P ?D =
      Inr (?P @ map (\<lambda>i. ?D ! i) (take 3 (permutation ?e (length ?D))) @
           map (\<lambda>j. concat (map (\<lambda>name. the (map_of (to_features ?e (init_suggest ?e (Some 1))) name) ! j)
                               (input_converter_dict ?e))) [0..<Suc 0])"
    by (simp add: Let_def del: upt_Suc)
  then have "batch_assembly ?e 5 ?P ?D =
      Inr [[1 / 2, 1 / 2], [1 / 16, 1 / 16], [1 / 8, 1 / 8], [1 / 4, 1 / 4], [1 / 3, 3]]"
    unfolding perm ts names feat by (simp add: numeral_3_eq_3)
  with h1 h2 h3 h4 show ?thesis by blast
qed

section \<open>The history\<close>

lemma suggest_state: "snd (suggest e d count) = d"
  by (simp add: suggest_def)

lemma run_trials: "trials (run e d calls) = trials d @ concat (map completed_of calls)"
  unfolding run_def
proof (induction calls arbitrary: d)
  case Nil
  show ?case by simp
next
  case (Cons c calls)
  show ?case by (cases c) (simp_all add: Cons.IH suggest_state update_def)
qed

lemma step_eq: "step e d c = d\<lparr>trials := trials d @ completed_of c\<rparr>"
  by (cases c) (simp_all add: suggest_state update_def)

lemma run_eq: "run e d calls = d\<lparr>trials := trials d @ concat (map completed_of calls)\<rparr>"
  unfolding run_def
  by (induction calls arbitrary: d) (simp_all add: step_eq)

text \<open>
  Claim C8. \<^verbatim>\<open>update\<close> appends the completed trials to the history, whatever they are
  (no test, no deduplication, no reordering, no truncation), and \<^verbatim>\<open>suggest\<close> leaves the
  designer as it was. So after any sequence of calls of \<^verbatim>\<open>update\<close> and \<^verbatim>\<open>suggest\<close>
  the history is the history before, followed by the batches of the \<^verbatim>\<open>update\<close> calls
  in the order of the calls, and its length has grown by the sum of their sizes.
\<close>

theorem history_append_only:
  "trials (update d completed) = trials d @ completed \<and>
   snd (suggest e d count) = d \<and>
   trials (run e d calls) = trials d @ concat (map completed_of calls) \<and>
   length (trials (run e d calls)) =
     length (trials d) + sum_list (map (\<lambda>c. length (completed_of c)) calls)"
  by (simp add: update_def suggest_state run_trials length_concat comp_def)

section \<open>Standardizing the labels\<close>







lemma suggest_model_based_eq:
  "n_init (cfg d) \<le> int (length (trials d)) \<Longrightarrow> fst (suggest e d count) = suggest_model_based e d"
  by (simp add: suggest_def)

lemma np_concatenate_single:
  "np_concatenate [col] = Inr (map (\<lambda>i. [col ! i]) [0..<length col])"
  by (simp add: np_concatenate_def)



lemma example_std: "sqrt (((1 - 2)\<^sup>2 + (3 - 2)\<^sup>2) / 2) = (1::real)"
  by simp


lemma suggest_model_based_Inr:
  assumes "suggest_model_based e d = (logged, Inr ts)"
  shows "\<exists>acqf x. optimize_acqf e d acqf = (logged, Inr x) \<and> ts = to_trials e [(DOUBLE, x)]"
  using assms unfolding suggest_model_based_def
  by (auto simp: Let_def split: prod.splits if_splits option.splits sum.splits)

lemma optimize_model_returns:
  assumes "mll_optimizer (cfg d) = ''l-bfgs'' \<or>
           mll_optimizer (cfg d) = ''adam'' \<and> (\<exists>lr n. mll_lr (cfg d) = Some lr \<and> 0 \<le> lr \<and>
             mll_epochs (cfg d) = Some n)"
  shows "\<exists>fitted. optimize_model e d model train_X train_Y = Inr fitted"
  using assms by (auto simp: optimize_model_def)

lemma suggest_model_based_returns:
  assumes "convert e (trials d) = ([(DOUBLE, x)], [(name, col)])"
      and "mll_optimizer (cfg d) = ''l-bfgs'' \<or>
           mll_optimizer (cfg d) = ''adam'' \<and> (\<exists>lr n. mll_lr (cfg d) = Some lr \<and> 0 \<le> lr \<and>
             mll_epochs (cfg d) = Some n)"
      and "\<And>fitted Y. \<exists>logged y. optimize_acqf e d (create_acqf e d fitted x Y) = (logged, Inr y)"
  shows "\<exists>logged ts. suggest_model_based e d = (logged, Inr ts)"
proof -
  define Y where "Y = standardize (map (\<lambda>i. [col ! i]) [0..<length col])"
  define model where "model = create_model e d x Y"
  from optimize_model_returns[OF assms(2), of e model x Y] obtain fitted where
    f: "optimize_model e d model x Y = Inr fitted" by blast
  from assms(3)[of fitted Y] obtain logged y where
    o: "optimize_acqf e d (create_acqf e d fitted x Y) = (logged, Inr y)" by blast
  show ?thesis
    unfolding suggest_model_based_def assms(1)
    using f o
    by (simp add: np_concatenate_single Let_def Y_def[symmetric] model_def[symmetric])
qed

lemma optimize_acqf_lbfgs:
  "acqf_optimizer (cfg d) = ''l-bfgs'' \<Longrightarrow>
   optimize_acqf e d acqf = ([], botorch_optimize_acqf e acqf (lb d, ub d) (q (cfg d)))"
  by (simp add: optimize_acqf_def)

lemma example_to_trials: "to_trials_contract example_env"
  by (simp add: to_trials_contract_def example_env_def)

lemma example_botorch: "botorch_contract example_env"
  by (auto simp add: botorch_contract_def example_env_def split: if_splits)




section \<open>Construction and the parameter types\<close>

lemma collect_bounds_ok:
  "\<forall>s\<in>set specs. spec_type s = DOUBLE \<Longrightarrow>
   collect_bounds specs l u =
     Inr (l @ map (\<lambda>s. fst (bounds s)) specs, u @ map (\<lambda>s. snd (bounds s)) specs)"
  by (induction specs arbitrary: l u) simp_all

lemma collect_bounds_bad:
  "\<exists>s\<in>set specs. spec_type s \<noteq> DOUBLE \<Longrightarrow>
   collect_bounds specs l u = Inl (NotImplementedError ''Unsupported variable type for BO'')"
  by (induction specs arbitrary: l u) auto

lemma example_validators: "validators_pass default_config"
  by (simp add: validators_pass_def default_config_def acqf_names_def)

lemma tenth_new:
  "BODesigner_new tenth_env example_problem default_config =
     Inr \<lparr> problem = example_problem, cfg = default_config, trials = [],
           lb = [Finite 0], ub = [Finite (13421773 / 134217728)], self_device = ''cpu'' \<rparr>"
  by (simp add: BODesigner_new_def example_validators attrs_post_init_def tenth_env_def
      example_env_def to_float32_0 to_float32_tenth)

text \<open>
  Claim C9. For a converter whose output specs have the declared types of the
  parameters: when the problem statement has a parameter that is not \<^verbatim>\<open>DOUBLE\<close>,
  \<^verbatim>\<open>__attrs_post_init__\<close> raises \<^verbatim>\<open>NotImplementedError\<close> (before the device is looked
  at) and no designer is constructed; when all parameters are \<^verbatim>\<open>DOUBLE\<close>, the options
  pass their validators and, with CUDA available, torch accepts the device string, a
  designer is constructed, and when torch refuses the device string, its exception is
  raised; and every constructed designer has only \<^verbatim>\<open>DOUBLE\<close>
  parameters, an empty history, and bounds \<open>lb\<close>, \<open>ub\<close> that are the bounds of the
  output specs rounded to float32, which no later call of \<^verbatim>\<open>suggest\<close> or \<^verbatim>\<open>update\<close>
  changes.
\<close>

theorem post_init_rejects_non_double:
  assumes "output_spec_contract e p"
  shows "((\<exists>prm\<in>set (search_space p). param_type prm \<noteq> DOUBLE) \<longrightarrow>
            attrs_post_init e p c = Inl (NotImplementedError ''Unsupported variable type for BO'') \<and>
            (\<forall>d. BODesigner_new e p c \<noteq> Inr d)) \<and>
         ((\<forall>prm\<in>set (search_space p). param_type prm = DOUBLE) \<and> validators_pass c \<and>
          (cuda_is_available e \<longrightarrow> (\<exists>dev. torch_device e (device c) = Inr dev)) \<longrightarrow>
            (\<exists>d. BODesigner_new e p c = Inr d)) \<and>
         ((\<forall>prm\<in>set (search_space p). param_type prm = DOUBLE) \<and> validators_pass c \<and>
          cuda_is_available e \<longrightarrow>
            (\<forall>err. torch_device e (device c) = Inl err \<longrightarrow> BODesigner_new e p c = Inl err)) \<and>
         (\<forall>d. BODesigner_new e p c = Inr d \<longrightarrow>
            (\<forall>prm\<in>set (search_space p). param_type prm = DOUBLE) \<and>
            lb d = map (\<lambda>kv. to_float32 (fst (bounds (snd kv)))) (output_spec e) \<and>
            ub d = map (\<lambda>kv. to_float32 (snd (bounds (snd kv)))) (output_spec e) \<and>
            problem d = p \<and> trials d = [] \<and>
            (\<forall>calls. lb (run e d calls) = lb d \<and> ub (run e d calls) = ub d \<and>
                     problem (run e d calls) = p))"
proof -
  let ?specs = "map snd (output_spec e)"
  let ?dev = "if cuda_is_available e then torch_device e (device c) else Inr ''cpu''"
  have types: "spec_type ` set ?specs = param_type ` set (search_space p)"
    using assms by (simp add: output_spec_contract_def image_image)
  have bad: "attrs_post_init e p c = Inl (NotImplementedError ''Unsupported variable type for BO'')"
    if "\<exists>prm\<in>set (search_space p). param_type prm \<noteq> DOUBLE"
  proof -
    from that obtain prm where "prm \<in> set (search_space p)" "param_type prm \<noteq> DOUBLE" by blast
    then have "param_type prm \<in> spec_type ` set ?specs" using types by blast
    then obtain s where "s \<in> set ?specs" "spec_type s = param_type prm" by force
    with \<open>param_type prm \<noteq> DOUBLE\<close> have "\<exists>s\<in>set ?specs. spec_type s \<noteq> DOUBLE"
      by (intro bexI[of _ s]) simp_all
    from collect_bounds_bad[OF this] show ?thesis by (simp add: attrs_post_init_def)
  qed
  have good: "attrs_post_init e p c =
      (case ?dev of
         Inl err \<Rightarrow> Inl err
       | Inr dev \<Rightarrow>
           Inr \<lparr> problem = p, cfg = c, trials = [],
                 lb = map (\<lambda>kv. to_float32 (fst (bounds (snd kv)))) (output_spec e),
                 ub = map (\<lambda>kv. to_float32 (snd (bounds (snd kv)))) (output_spec e),
                 self_device = dev \<rparr>)"
    if "\<forall>prm\<in>set (search_space p). param_type prm = DOUBLE"
  proof -
    have "\<forall>s\<in>set ?specs. spec_type s = DOUBLE"
    proof
      fix s assume "s \<in> set ?specs"
      then have "spec_type s \<in> param_type ` set (search_space p)" using types by blast
      with that show "spec_type s = DOUBLE" by auto
    qed
    from collect_bounds_ok[OF this, of "[]" "[]"] show ?thesis
      by (simp add: attrs_post_init_def comp_def split: sum.splits)
  qed
  have new: "BODesigner_new e p c = Inr d \<Longrightarrow> attrs_post_init e p c = Inr d" for d
    by (simp add: BODesigner_new_def split: if_splits)
  have all: "\<forall>prm\<in>set (search_space p). param_type prm = DOUBLE" if "BODesigner_new e p c = Inr d" for d
  proof (rule ccontr)
    assume "\<not> ?thesis"
    then have "\<exists>prm\<in>set (search_space p). param_type prm \<noteq> DOUBLE" by blast
    from bad[OF this] new[OF that] show False by simp
  qed
  have fields: "lb d = map (\<lambda>kv. to_float32 (fst (bounds (snd kv)))) (output_spec e) \<and>
            ub d = map (\<lambda>kv. to_float32 (snd (bounds (snd kv)))) (output_spec e) \<and>
            problem d = p \<and> trials d = []" if "BODesigner_new e p c = Inr d" for d
    using good[OF all[OF that]] new[OF that] by (auto split: sum.splits)
  have frame: "lb (run e d calls) = lb d \<and> ub (run e d calls) = ub d \<and> problem (run e d calls) = problem d"
    for d :: "'a BODesigner" and calls
    by (simp add: run_eq)
  show ?thesis
  proof (intro conjI impI allI)
    assume "\<exists>prm\<in>set (search_space p). param_type prm \<noteq> DOUBLE"
    then show "attrs_post_init e p c = Inl (NotImplementedError ''Unsupported variable type for BO'')"
      by (rule bad)
  next
    fix d
    assume "\<exists>prm\<in>set (search_space p). param_type prm \<noteq> DOUBLE"
    from bad[OF this] show "BODesigner_new e p c \<noteq> Inr d"
      by (simp add: BODesigner_new_def)
  next
    assume a: "(\<forall>prm\<in>set (search_space p). param_type prm = DOUBLE) \<and> validators_pass c \<and>
          (cuda_is_available e \<longrightarrow> (\<exists>dev. torch_device e (device c) = Inr dev))"
    then obtain dev where "?dev = Inr dev" by (cases "cuda_is_available e") auto
    with a good show "\<exists>d. BODesigner_new e p c = Inr d"
      by (simp add: BODesigner_new_def)
  next
    fix err
    assume a: "(\<forall>prm\<in>set (search_space p). param_type prm = DOUBLE) \<and> validators_pass c \<and>
          cuda_is_available e" and b: "torch_device e (device c) = Inl err"
    with good show "BODesigner_new e p c = Inl err"
      by (simp add: BODesigner_new_def)
  next
    fix d assume d: "BODesigner_new e p c = Inr d"
    show "\<forall>prm\<in>set (search_space p). param_type prm = DOUBLE" by (rule all[OF d])
    show "lb d = map (\<lambda>kv. to_float32 (fst (bounds (snd kv)))) (output_spec e)"
      using fields[OF d] by simp
    show "ub d = map (\<lambda>kv. to_float32 (snd (bounds (snd kv)))) (output_spec e)"
      using fields[OF d] by simp
    show "problem d = p" using fields[OF d] by simp
    show "trials d = []" using fields[OF d] by simp
    fix calls
    show "lb (run e d calls) = lb d" using frame by simp
    show "ub (run e d calls) = ub d" using frame by simp
    show "problem (run e d calls) = p" using frame fields[OF d] by simp
  qed
qed

theorem post_init_rejects_non_double_witness:
  "output_spec_contract
     (example_env\<lparr>output_spec := [(''x'', \<lparr>spec_type = DOUBLE, bounds = (0, 1)\<rparr>),
                                  (''k'', \<lparr>spec_type = INTEGER, bounds = (0, 5)\<rparr>)]\<rparr>)
     \<lparr>search_space = [\<lparr>param_name = ''x'', param_type = DOUBLE\<rparr>,
                      \<lparr>param_name = ''k'', param_type = INTEGER\<rparr>], metric_names = [''y'']\<rparr> \<and>
   attrs_post_init
     (example_env\<lparr>output_spec := [(''x'', \<lparr>spec_type = DOUBLE, bounds = (0, 1)\<rparr>),
                                  (''k'', \<lparr>spec_type = INTEGER, bounds = (0, 5)\<rparr>)]\<rparr>)
     \<lparr>search_space = [\<lparr>param_name = ''x'', param_type = DOUBLE\<rparr>,
                      \<lparr>param_name = ''k'', param_type = INTEGER\<rparr>], metric_names = [''y'']\<rparr>
     default_config = Inl (NotImplementedError ''Unsupported variable type for BO'') \<and>
   output_spec_contract tenth_env example_problem \<and>
   BODesigner_new tenth_env example_problem default_config =
     Inr \<lparr> problem = example_problem, cfg = default_config, trials = [],
           lb = [Finite 0], ub = [Finite (13421773 / 134217728)], self_device = ''cpu'' \<rparr> \<and>
   output_spec_contract (tenth_env\<lparr>cuda_is_available := True\<rparr>) example_problem \<and>
   BODesigner_new (tenth_env\<lparr>cuda_is_available := True\<rparr>) example_problem
     (default_config\<lparr>device := ''gpu''\<rparr>) = Inl RuntimeError"
proof -
  let ?e = "example_env\<lparr>output_spec := [(''x'', \<lparr>spec_type = DOUBLE, bounds = (0, 1)\<rparr>),
                                  (''k'', \<lparr>spec_type = INTEGER, bounds = (0, 5)\<rparr>)]\<rparr>"
  let ?p = "\<lparr>search_space = [\<lparr>param_name = ''x'', param_type = DOUBLE\<rparr>,
                      \<lparr>param_name = ''k'', param_type = INTEGER\<rparr>], metric_names = [''y'']\<rparr>"
  have h: "output_spec_contract ?e ?p"
    by (simp add: output_spec_contract_def)
  have g: "output_spec_contract tenth_env example_problem"
    by (simp add: output_spec_contract_def tenth_env_def example_problem_def)
  have all: "\<forall>prm\<in>set (search_space example_problem). param_type prm = DOUBLE"
    by (simp add: example_problem_def)
  have cpu: "\<not> cuda_is_available tenth_env"
    by (simp add: tenth_env_def example_env_def)
  from post_init_rejects_non_double[OF g, of default_config] all example_validators cpu
  obtain d where d: "BODesigner_new tenth_env example_problem default_config = Inr d"
    by blast
  with post_init_rejects_non_double[OF g, of default_config]
  have f: "lb d = map (\<lambda>kv. to_float32 (fst (bounds (snd kv)))) (output_spec tenth_env)"
    "ub d = map (\<lambda>kv. to_float32 (snd (bounds (snd kv)))) (output_spec tenth_env)"
    "problem d = example_problem" "trials d = []"
    by blast+
  have "cfg d = default_config" "self_device d = ''cpu''"
    using d by (auto simp add: BODesigner_new_def attrs_post_init_def tenth_env_def example_env_def
        split: if_splits sum.splits prod.splits)
  with f have "d = \<lparr> problem = example_problem, cfg = default_config, trials = [],
           lb = [Finite 0], ub = [Finite (13421773 / 134217728)], self_device = ''cpu'' \<rparr>"
    by (simp add: tenth_env_def to_float32_0 to_float32_tenth)
  with d have new: "BODesigner_new tenth_env example_problem default_config =
     Inr \<lparr> problem = example_problem, cfg = default_config, trials = [],
           lb = [Finite 0], ub = [Finite (13421773 / 134217728)], self_device = ''cpu'' \<rparr>"
    by simp
  have g2: "output_spec_contract (tenth_env\<lparr>cuda_is_available := True\<rparr>) example_problem"
    by (simp add: output_spec_contract_def tenth_env_def example_problem_def)
  have v2: "validators_pass (default_config\<lparr>device := ''gpu''\<rparr>)"
    using example_validators by (simp add: validators_pass_def)
  have t2: "torch_device (tenth_env\<lparr>cuda_is_available := True\<rparr>)
              (device (default_config\<lparr>device := ''gpu''\<rparr>)) = Inl RuntimeError"
    by (simp add: tenth_env_def example_env_def)
  from post_init_rejects_non_double[OF g2, of "default_config\<lparr>device := ''gpu''\<rparr>"] all v2 t2
  have bad: "BODesigner_new (tenth_env\<lparr>cuda_is_available := True\<rparr>) example_problem
     (default_config\<lparr>device := ''gpu''\<rparr>) = Inl RuntimeError"
    by simp
  show ?thesis
    using h g g2 new bad post_init_rejects_non_double[OF h, of default_config] by simp
qed

section \<open>Unsupported inputs of suggest\<close>

lemma features_not_double:
  assumes "set (map fst features) = T" and "t \<in> T" and "t \<noteq> DOUBLE"
  shows "\<not> (DOUBLE \<in> set (map fst features) \<and> length features = 1)"
proof
  assume a: "DOUBLE \<in> set (map fst features) \<and> length features = 1"
  then obtain kv where "features = [kv]" by (cases features) auto
  with a assms show False by auto
qed

text \<open>
  Claim C7. In the model-based state (the history has at least \<^verbatim>\<open>n_init\<close> trials):
  when the search space has a parameter that is not \<^verbatim>\<open>DOUBLE\<close>, for a converter whose
  feature groups have the declared types of the parameters, \<^verbatim>\<open>suggest\<close> raises
  \<^verbatim>\<open>NotImplementedError('Unsupported variable type for BO')\<close> and returns no trial; and
  when the labels hold more than one metric, \<^verbatim>\<open>suggest\<close> raises an exception, which is
  \<^verbatim>\<open>NotImplementedError('Unsupported for multiobjective BO')\<close> when the features are
  continuous and every label array has one value for each trial. Nothing is logged, and the
  outcome does not depend on what the random collaborators return.
\<close>

theorem suggest_unsupported_raises:
  assumes "n_init (cfg d) \<le> int (length (trials d))"
  shows "(features_contract e (problem d) \<and>
          (\<exists>prm\<in>set (search_space (problem d)). param_type prm \<noteq> DOUBLE) \<longrightarrow>
            fst (suggest e d count) =
              ([], Inl (NotImplementedError ''Unsupported variable type for BO''))) \<and>
         (1 < length (snd (convert e (trials d))) \<longrightarrow>
            (\<exists>err. fst (suggest e d count) = ([], Inl err))) \<and>
         (1 < length (snd (convert e (trials d))) \<and>
          (\<exists>x. fst (convert e (trials d)) = [(DOUBLE, x)]) \<and>
          (\<forall>c\<in>set (snd (convert e (trials d))). length (snd c) = length (trials d)) \<longrightarrow>
            fst (suggest e d count) =
              ([], Inl (NotImplementedError ''Unsupported for multiobjective BO'')))"
proof (intro conjI impI)
  assume a: "features_contract e (problem d) \<and>
          (\<exists>prm\<in>set (search_space (problem d)). param_type prm \<noteq> DOUBLE)"
  obtain features labels where conv: "convert e (trials d) = (features, labels)"
    by (cases "convert e (trials d)")
  from a have "set (map fst (fst (convert e (trials d)))) = set (map param_type (search_space (problem d)))"
    unfolding features_contract_def by blast
  then have keys: "set (map fst features) = set (map param_type (search_space (problem d)))"
    by (simp only: conv fst_conv)
  from a obtain prm where "prm \<in> set (search_space (problem d))" "param_type prm \<noteq> DOUBLE"
    by blast
  then have "\<not> (DOUBLE \<in> set (map fst features) \<and> length features = 1)"
    by (intro features_not_double[OF keys, of "param_type prm"]) auto
  then show "fst (suggest e d count) =
              ([], Inl (NotImplementedError ''Unsupported variable type for BO''))"
    unfolding suggest_model_based_eq[OF assms] suggest_model_based_def conv by simp
next
  assume "1 < length (snd (convert e (trials d)))"
  then show "\<exists>err. fst (suggest e d count) = ([], Inl err)"
    unfolding suggest_model_based_eq[OF assms] suggest_model_based_def
    by (auto split: prod.splits option.splits sum.splits)
next
  assume a: "1 < length (snd (convert e (trials d))) \<and>
          (\<exists>x. fst (convert e (trials d)) = [(DOUBLE, x)]) \<and>
          (\<forall>c\<in>set (snd (convert e (trials d))). length (snd c) = length (trials d))"
  then obtain x labels where conv: "convert e (trials d) = ([(DOUBLE, x)], labels)"
    by (cases "convert e (trials d)") auto
  from a conv have len: "1 < length labels" and same: "\<forall>c\<in>set labels. length (snd c) = length (trials d)"
    by auto
  from len obtain c rest where labels: "labels = c # rest" by (cases labels) auto
  have "\<exists>y. np_concatenate (map snd labels) = Inr y"
    using same by (auto simp: np_concatenate_def labels list_all_iff)
  then obtain y where "np_concatenate (map snd labels) = Inr y" ..
  then show "fst (suggest e d count) =
              ([], Inl (NotImplementedError ''Unsupported for multiobjective BO''))"
    unfolding suggest_model_based_eq[OF assms] suggest_model_based_def conv using len by simp
qed

theorem suggest_unsupported_raises_witness:
  "n_init (cfg ((example_designer default_config (replicate 10 [1 / 2, 3]))
          \<lparr>problem := \<lparr>search_space = [\<lparr>param_name = ''x'', param_type = DOUBLE\<rparr>,
                      \<lparr>param_name = ''k'', param_type = INTEGER\<rparr>], metric_names = [''y'']\<rparr>\<rparr>))
     \<le> int (length (trials ((example_designer default_config (replicate 10 [1 / 2, 3]))
          \<lparr>problem := \<lparr>search_space = [\<lparr>param_name = ''x'', param_type = DOUBLE\<rparr>,
                      \<lparr>param_name = ''k'', param_type = INTEGER\<rparr>], metric_names = [''y'']\<rparr>\<rparr>))) \<and>
   fst (suggest (example_env\<lparr>convert := (\<lambda>ts. ([(DOUBLE, map (take 1) ts), (INTEGER, map (drop 1) ts)],
                                               [(''y'', map sum_list ts)]))\<rparr>)
          ((example_designer default_config (replicate 10 [1 / 2, 3]))
          \<lparr>problem := \<lparr>search_space = [\<lparr>param_name = ''x'', param_type = DOUBLE\<rparr>,
                      \<lparr>param_name = ''k'', param_type = INTEGER\<rparr>], metric_names = [''y'']\<rparr>\<rparr>) None)
     = ([], Inl (NotImplementedError ''Unsupported variable type for BO''))"
proof -
  let ?p = "\<lparr>search_space = [\<lparr>param_name = ''x'', param_type = DOUBLE\<rparr>,
                      \<lparr>param_name = ''k'', param_type = INTEGER\<rparr>], metric_names = [''y'']\<rparr>"
  let ?d = "(example_designer default_config (replicate 10 [1 / 2, 3]))\<lparr>problem := ?p\<rparr>"
  let ?e = "example_env\<lparr>convert := (\<lambda>ts. ([(DOUBLE, map (take 1) ts), (INTEGER, map (drop 1) ts)],
                                               [(''y'', map sum_list ts)]))\<rparr>"
  have h1: "n_init (cfg ?d) \<le> int (length (trials ?d))"
    by (simp add: example_designer_def default_config_def)
  have h2: "features_contract ?e (problem ?d)"
    by (auto simp add: features_contract_def example_designer_def)
  have h3: "\<exists>prm\<in>set (search_space (problem ?d)). param_type prm \<noteq> DOUBLE"
    by (simp add: example_designer_def)
  show ?thesis
    using h1 h2 h3 suggest_unsupported_raises[OF h1, of ?e None] by simp
qed

section \<open>One acquisition type with the evolutionary optimizer\<close>

lemma nsgaii_loop_single: "0 < n \<Longrightarrow> nsgaii_loop e (AcqfSingle a) n s = Inl TypeError"
  by (cases n) (auto simp: acqf_obj_def split: prod.splits)

text \<open>
  Claim C5. The spec says that with the evolutionary optimizer and one acquisition type
  (a name, not a list) the model-based \<^verbatim>\<open>suggest\<close> logs a warning and goes on to return a
  batch. The source logs the warning, but \<^verbatim>\<open>create_acqf\<close> has returned the one
  acquisition function and not a list, and \<^verbatim>\<open>acqf_obj\<close> iterates over it in the first
  generation: \<^verbatim>\<open>suggest\<close> raises \<^verbatim>\<open>TypeError\<close> whenever the number of epochs is
  positive (200 by default).
\<close>

theorem single_acqf_nsgaii_raises:
  assumes "n_init (cfg d) \<le> int (length (trials d))"
      and "convert e (trials d) = ([(DOUBLE, x)], [(name, col)])"
      and "mll_optimizer (cfg d) = ''l-bfgs''"
      and "acqf_optimizer (cfg d) = ''nsgaii''"
      and "acqf_type (cfg d) = Name s"
      and "0 < dict_get (acqf_config (cfg d)) ''epochs'' 200"
  shows "fst (suggest e d count) = ([nsgaii_warning], Inl TypeError)"
proof -
  have pos: "0 < nat (dict_get (acqf_config (cfg d)) ''epochs'' 200)"
    using assms(6) by simp
  have acqf: "create_acqf e d model train_X train_Y = AcqfSingle (acqf_factory e s model train_X train_Y)"
    for model train_X train_Y
    by (simp add: create_acqf_def assms(5))
  have opt: "optimize_acqf e d (AcqfSingle a) = ([nsgaii_warning], Inl TypeError)" for a
    unfolding optimize_acqf_def Let_def nsgaii_loop_single[OF pos]
    by (simp add: assms(4,5))
  show ?thesis
    unfolding suggest_model_based_eq[OF assms(1)] suggest_model_based_def assms(2)
    by (simp add: np_concatenate_single optimize_model_def assms(3) Let_def acqf opt)
qed

theorem single_acqf_nsgaii_raises_witness:
  "n_init (cfg (example_designer (default_config\<lparr>acqf_optimizer := ''nsgaii''\<rparr>) (replicate 10 [1 / 2])))
     \<le> int (length (trials (example_designer (default_config\<lparr>acqf_optimizer := ''nsgaii''\<rparr>) (replicate 10 [1 / 2])))) \<and>
   fst (suggest example_env
          (example_designer (default_config\<lparr>acqf_optimizer := ''nsgaii''\<rparr>) (replicate 10 [1 / 2])) None)
     = ([nsgaii_warning], Inl TypeError)"
proof -
  let ?d = "example_designer (default_config\<lparr>acqf_optimizer := ''nsgaii''\<rparr>) (replicate 10 [1 / 2])"
  have h1: "n_init (cfg ?d) \<le> int (length (trials ?d))"
    by (simp add: example_designer_def default_config_def)
  have h2: "convert example_env (trials ?d) = ([(DOUBLE, trials ?d)], [(''y'', map sum_list (trials ?d))])"
    by (simp add: example_env_def)
  have h3: "mll_optimizer (cfg ?d) = ''l-bfgs''" "acqf_optimizer (cfg ?d) = ''nsgaii''"
    "acqf_type (cfg ?d) = Name ''qEI''" "0 < dict_get (acqf_config (cfg ?d)) ''epochs'' 200"
    by (simp_all add: example_designer_def default_config_def dict_get_def)
  show ?thesis
    using h1 single_acqf_nsgaii_raises[OF h1 h2 h3, of None] by simp
qed

section \<open>The defaults\<close>

text \<open>
  Claim C10. The defaults are \<^verbatim>\<open>n_init = 10\<close>, \<^verbatim>\<open>q = 1\<close>, device \<^verbatim>\<open>'cpu'\<close>, acquisition
  type \<^verbatim>\<open>'qEI'\<close>, model-fit optimizer \<^verbatim>\<open>'l-bfgs'\<close> and acquisition optimizer
  \<^verbatim>\<open>'l-bfgs'\<close>, and they pass the validators. For a designer with these options and an
  empty history, after any calls: while fewer than 10 trials have been passed to
  \<^verbatim>\<open>update\<close>, \<^verbatim>\<open>suggest\<close> returns what the random sub-designer returns; from 10 trials
  on, every batch \<^verbatim>\<open>suggest\<close> returns has one trial, and \<^verbatim>\<open>suggest\<close> returns one when
  the features are one \<^verbatim>\<open>DOUBLE\<close> group, there is one metric and botorch returns.
\<close>

theorem default_configuration:
  assumes "cfg d0 = default_config" and "trials d0 = []"
      and "botorch_contract e" and "to_trials_contract e"
  shows "n_init default_config = 10 \<and> q default_config = 1 \<and> device default_config = ''cpu'' \<and>
         acqf_type default_config = Name ''qEI'' \<and> mll_optimizer default_config = ''l-bfgs'' \<and>
         acqf_optimizer default_config = ''l-bfgs'' \<and> validators_pass default_config \<and>
         cfg (run e d0 calls) = default_config \<and>
         length (trials (run e d0 calls)) = length (concat (map completed_of calls)) \<and>
         (length (concat (map completed_of calls)) < 10 \<longrightarrow>
            fst (suggest e (run e d0 calls) count) = ([], Inr (init_suggest e count))) \<and>
         (10 \<le> length (concat (map completed_of calls)) \<longrightarrow>
            (\<forall>logged ts. fst (suggest e (run e d0 calls) count) = (logged, Inr ts) \<longrightarrow>
               length ts = 1) \<and>
            ((\<exists>x name col. convert e (trials (run e d0 calls)) = ([(DOUBLE, x)], [(name, col)])) \<and>
             (\<forall>acqf. \<exists>y. botorch_optimize_acqf e acqf (lb d0, ub d0) 1 = Inr y) \<longrightarrow>
               (\<exists>ts. fst (suggest e (run e d0 calls) count) = ([], Inr ts) \<and> length ts = 1)))"
proof -
  define d where "d = run e d0 calls"
  define n where "n = length (concat (map completed_of calls))"
  have cfgd: "cfg d = default_config" and len: "length (trials d) = n"
    and bnds: "lb d = lb d0" "ub d = ub d0"
    using assms(1,2) by (simp_all add: d_def n_def run_eq)
  have dflt: "n_init (cfg d) = 10" "q (cfg d) = 1" "acqf_optimizer (cfg d) = ''l-bfgs''"
    "mll_optimizer (cfg d) = ''l-bfgs''"
    by (simp_all add: cfgd default_config_def)
  have boot: "fst (suggest e d count) = ([], Inr (init_suggest e count))" if "n < 10"
    using that by (simp add: suggest_def dflt len)
  have mb: "n_init (cfg d) \<le> int (length (trials d))" if "10 \<le> n"
    using that by (simp add: dflt len)
  have one: "length ts = 1" if "10 \<le> n" "fst (suggest e d count) = (logged, Inr ts)" for logged ts
  proof -
    from that have "suggest_model_based e d = (logged, Inr ts)"
      by (simp add: suggest_model_based_eq[OF mb])
    from suggest_model_based_Inr[OF this] obtain acqf x where
      o: "optimize_acqf e d acqf = (logged, Inr x)" and ts: "ts = to_trials e [(DOUBLE, x)]"
      by blast
    from o have "botorch_optimize_acqf e acqf (lb d, ub d) 1 = Inr x"
      by (simp add: optimize_acqf_lbfgs dflt)
    with assms(3) have "int (length x) = 1"
      unfolding botorch_contract_def by blast
    with assms(4) ts show ?thesis by (simp add: to_trials_contract_def)
  qed
  have ret: "\<exists>ts. fst (suggest e d count) = ([], Inr ts) \<and> length ts = 1"
    if "10 \<le> n" and conv: "\<exists>x name col. convert e (trials d) = ([(DOUBLE, x)], [(name, col)])"
      and bot: "\<forall>acqf. \<exists>y. botorch_optimize_acqf e acqf (lb d0, ub d0) 1 = Inr y"
  proof -
    from conv obtain x name col where c: "convert e (trials d) = ([(DOUBLE, x)], [(name, col)])"
      by blast
    have r: "\<exists>logged y. optimize_acqf e d (create_acqf e d fitted x Y) = (logged, Inr y)" for fitted Y
      using bot by (simp add: optimize_acqf_lbfgs dflt bnds)
    from suggest_model_based_returns[OF c _ r] dflt(4) obtain logged ts where
      s: "suggest_model_based e d = (logged, Inr ts)" by blast
    from suggest_model_based_Inr[OF s] have "logged = []"
      by (auto simp add: optimize_acqf_lbfgs dflt)
    with s one[OF that(1), of logged ts] show ?thesis
      by (simp add: suggest_model_based_eq[OF mb[OF that(1)]])
  qed
  show ?thesis
    unfolding d_def[symmetric] n_def[symmetric]
    using cfgd len boot one ret example_validators
    by (simp add: default_config_def)
qed

theorem default_configuration_witness:
  "cfg (example_designer default_config []) = default_config \<and>
   trials (example_designer default_config []) = [] \<and>
   botorch_contract example_env \<and> to_trials_contract example_env \<and>
   fst (suggest example_env (run example_env (example_designer default_config []) []) (Some 3))
     = ([], Inr [[1 / 2], [1 / 2], [1 / 2]]) \<and>
   fst (suggest example_env
          (run example_env (example_designer default_config []) [Update (replicate 10 [1 / 2])])
          (Some 3))
     = ([], Inr [[1 / 4]])"
proof -
  let ?d0 = "example_designer default_config []"
  have h: "cfg ?d0 = default_config" "trials ?d0 = []"
    by (simp_all add: example_designer_def)
  note boot = default_configuration[OF h example_botorch example_to_trials, of "[]" "Some 3"]
  note mb = default_configuration[OF h example_botorch example_to_trials, of "[Update (replicate 10 [1 / 2])]" "Some 3"]
  have b: "fst (suggest example_env (run example_env ?d0 []) (Some 3)) = ([], Inr [[1 / 2], [1 / 2], [1 / 2]])"
    using boot by (simp add: example_env_def numeral_3_eq_3)
  have conv: "convert example_env ts = ([(DOUBLE, ts)], [(''y'', map sum_list ts)])" for ts
    by (simp add: example_env_def)
  have bot: "botorch_optimize_acqf example_env acqf bnd 1 = Inr [[1 / 4]]" for acqf bnd
    by (simp add: example_env_def)
  have tt: "to_trials example_env [(DOUBLE, y)] = y" for y
    by (simp add: example_env_def)
  from mb have "\<exists>ts. fst (suggest example_env (run example_env ?d0 [Update (replicate 10 [1 / 2])]) (Some 3))
          = ([], Inr ts) \<and> length ts = 1"
    by (simp add: conv bot)
  then obtain ts where ts: "fst (suggest example_env (run example_env ?d0 [Update (replicate 10 [1 / 2])]) (Some 3))
          = ([], Inr ts)" by blast
  have mbs: "n_init (cfg (run example_env ?d0 [Update (replicate 10 [1 / 2])]))
       \<le> int (length (trials (run example_env ?d0 [Update (replicate 10 [1 / 2])])))"
    by (simp add: run_eq example_designer_def default_config_def)
  from ts have "suggest_model_based example_env (run example_env ?d0 [Update (replicate 10 [1 / 2])]) = ([], Inr ts)"
    by (simp add: suggest_model_based_eq[OF mbs])
  from suggest_model_based_Inr[OF this] have "ts = [[1 / 4]]"
    by (auto simp add: optimize_acqf_lbfgs run_eq example_designer_def default_config_def bot tt)
  with ts b h example_botorch example_to_trials show ?thesis by simp
qed

section \<open>The bounds handed to the continuous optimizer\<close>

text \<open>
  Claim C1. The spec has every point returned in the model-based state within the
  bounds of the parameters. The source stores the bounds with \<^verbatim>\<open>torch.tensor(lb)\<close> and
  \<^verbatim>\<open>torch.tensor(ub)\<close> (line 85), which round them to float32, and widens them with
  \<^verbatim>\<open>.double()\<close> (line 130) only after the rounding: the box handed to botorch is the
  rounded one. For one parameter declared in \<open>[0, 0.1]\<close> the stored upper bound is
  \<open>13421773 / 134217728 = 0.100000001490116...\<close>, above \<open>0.1\<close>. With the default
  options and ten trials in the history, when botorch returns the upper corner of the box
  it was given, \<^verbatim>\<open>suggest(7)\<close> returns one trial (\<open>q = 1\<close>, the count is ignored), at
  \<open>0.100000001490116...\<close>: outside the declared bounds.
\<close>

theorem suggest_exceeds_declared_bound:
  "snd (bounds (snd (hd (output_spec tenth_env)))) = 1 / 10 \<and>
   BODesigner_new tenth_env example_problem default_config =
     Inr \<lparr> problem = example_problem, cfg = default_config, trials = [],
           lb = [Finite 0], ub = [Finite (13421773 / 134217728)], self_device = ''cpu'' \<rparr> \<and>
   fst (suggest tenth_env
          (run tenth_env
             \<lparr> problem = example_problem, cfg = default_config, trials = [],
               lb = [Finite 0], ub = [Finite (13421773 / 134217728)], self_device = ''cpu'' \<rparr>
             [Update (replicate 10 [1 / 20])])
          (Some 7))
     = ([], Inr [[13421773 / 134217728]]) \<and>
   (1 / 10 :: real) < 13421773 / 134217728"
proof -
  let ?init = "\<lparr> problem = example_problem, cfg = default_config, trials = ([] :: point list),
               lb = [Finite 0], ub = [Finite (13421773 / 134217728)], self_device = ''cpu'' \<rparr>"
  let ?cur = "run tenth_env ?init [Update (replicate 10 [1 / 20])]"
  have d: "?cur = ?init\<lparr>trials := replicate 10 [1 / 20]\<rparr>"
    by (simp add: run_eq)
  have sel: "convert tenth_env ts = ([(DOUBLE, ts)], [(''y'', map sum_list ts)])"
    "botorch_optimize_acqf tenth_env acqf (l, [Finite (13421773 / 134217728)]) 1
       = Inr [[13421773 / 134217728]]"
    "to_trials tenth_env [(DOUBLE, y)] = y" "fit_gpytorch_mll tenth_env m = m"
    for ts acqf l y m
    by (simp_all add: tenth_env_def example_env_def)
  have "suggest_model_based tenth_env (?init\<lparr>trials := replicate 10 [1 / 20]\<rparr>)
          = ([], Inr [[13421773 / 134217728]])"
    unfolding suggest_model_based_def sel
    by (simp add: np_concatenate_single optimize_model_def optimize_acqf_lbfgs default_config_def
        sel Let_def)
  then have "fst (suggest tenth_env ?cur (Some 7)) = ([], Inr [[13421773 / 134217728]])"
    unfolding d by (simp add: suggest_def default_config_def)
  moreover have "snd (bounds (snd (hd (output_spec tenth_env)))) = 1 / 10"
    by (simp add: tenth_env_def)
  ultimately show ?thesis
    using tenth_new by simp
qed

end
